theory Spec2Isabelle
  imports Complex_Main
begin

section \<open>Python values, dictionaries and exceptions\<close>

text \<open>
  The program is Python. A ticket is a \<^verbatim>\<open>dict\<close> from field names to values; the values
  the synchronisation handles are \<^verbatim>\<open>None\<close>, strings and integers (identifiers, epoch
  milliseconds). A string is the list of its characters; integers are unbounded.
\<close>

datatype pyval = PNone | PStr string | PInt int

datatype error =
    KeyError string
  | IndexError
  | TypeError
  | ValueError
  | RequestException
  | ReError

type_synonym pydict = "string \<rightharpoonup> pyval"

type_synonym ticket = pydict

text \<open>Truth value of an object in a condition (\<^verbatim>\<open>if x:\<close>).\<close>

fun py_truthy :: "pyval \<Rightarrow> bool" where
  "py_truthy PNone = False"
| "py_truthy (PStr s) = (s \<noteq> [])"
| "py_truthy (PInt i) = (i \<noteq> 0)"

text \<open>\<^verbatim>\<open>d[k]\<close> raises \<^verbatim>\<open>KeyError\<close> on a missing key; \<^verbatim>\<open>d.get(k, default)\<close> does not.\<close>

definition dict_item :: "pydict \<Rightarrow> string \<Rightarrow> error + pyval" where
  "dict_item d k = (case d k of None \<Rightarrow> Inl (KeyError k) | Some v \<Rightarrow> Inr v)"

definition dict_get :: "pydict \<Rightarrow> string \<Rightarrow> pyval \<Rightarrow> pyval" where
  "dict_get d k dflt = (case d k of None \<Rightarrow> dflt | Some v \<Rightarrow> v)"

text \<open>\<^verbatim>\<open>str(x)\<close> and the formatting of a value inside an f-string.\<close>

definition digit_char :: "nat \<Rightarrow> char" where
  "digit_char n = ''0123456789'' ! n"

function str_nat :: "nat \<Rightarrow> string" where
  "str_nat n = (if n < 10 then [digit_char n] else str_nat (n div 10) @ [digit_char (n mod 10)])"
  by pat_completeness auto
termination
  by (relation "measure id") auto

declare str_nat.simps [simp del]

definition str_int :: "int \<Rightarrow> string" where
  "str_int i = (if i < 0 then CHR ''-'' # str_nat (nat (- i)) else str_nat (nat i))"

fun py_str :: "pyval \<Rightarrow> string" where
  "py_str PNone = ''None''"
| "py_str (PStr s) = s"
| "py_str (PInt i) = str_int i"

section \<open>Priority mapping (ado\_api.map\_priority)\<close>

text \<open>
  \<^verbatim>\<open>priority_mapping = {"High": 1, "Medium": 2, "Low": 3}\<close> and
  \<^verbatim>\<open>return priority_mapping.get(priority, 2)\<close>. The keys of the dictionary are strings, so a
  key that is not one of the three strings is absent from it.
\<close>

definition priority_mapping :: "pyval \<rightharpoonup> int" where
  "priority_mapping = [PStr ''High'' \<mapsto> 1, PStr ''Medium'' \<mapsto> 2, PStr ''Low'' \<mapsto> 3]"

definition map_priority :: "pyval \<Rightarrow> int" where
  "map_priority priority = (case priority_mapping priority of None \<Rightarrow> 2 | Some v \<Rightarrow> v)"

section \<open>Redaction (sensitive\_data\_detector.redact\_text)\<close>

subsection \<open>Python strings\<close>

text \<open>
  A Python \<^verbatim>\<open>str\<close> is a sequence of code points, and the \<^verbatim>\<open>re\<close> module matches it
  code point by code point. Redaction is therefore modelled on lists of code points,
  for every code point of Unicode. The strings of a ticket (the type \<open>string\<close>) hold the
  code points below 256: a character stands for the code point of its number.
\<close>

type_synonym pystr = "nat list"

definition code_points :: "string \<Rightarrow> pystr" where
  "code_points s = map of_char s"

definition chars_of :: "pystr \<Rightarrow> string" where
  "chars_of s = map char_of s"

subsection \<open>The part of Python's \<^verbatim>\<open>re\<close> module that redaction uses\<close>

text \<open>
  \<^verbatim>\<open>re.escape(value)\<close> puts a backslash (code point 92) before each character of
  \<^verbatim>\<open>()[]{}?*+-|^$\.&~#\<close>, the space, and the tab, line feed, carriage return, vertical tab
  and form feed, and leaves every other character as it is.
\<close>

definition backslash :: nat where
  "backslash = 92"

definition re_special_chars :: "nat list" where
  "re_special_chars = code_points ''()[]{}?*+-|^$.&~# '' @ [backslash, 9, 10, 13, 11, 12]"

definition re_escape :: "pystr \<Rightarrow> pystr" where
  "re_escape s = concat (map (\<lambda>c. if c \<in> set re_special_chars then [backslash, c] else [c]) s)"

text \<open>
  Pattern syntax. The characters below are the metacharacters of a pattern; a backslash
  followed by an ASCII letter or digit is a class, an anchor or a back-reference, and a
  backslash followed by any other character stands for that character. \<open>re_literal\<close> reads
  a pattern that uses no syntax and returns the literal it denotes; a pattern with syntax
  is outside the fragment modelled here and is reported with \<open>None\<close>.
\<close>

definition re_meta_chars :: "nat list" where
  "re_meta_chars = code_points ''.^$*+?{}[]|()'' @ [backslash]"

definition is_ascii_alnum :: "nat \<Rightarrow> bool" where
  "is_ascii_alnum n = ((48 \<le> n \<and> n \<le> 57) \<or> (65 \<le> n \<and> n \<le> 90) \<or> (97 \<le> n \<and> n \<le> 122))"

fun re_literal :: "pystr \<Rightarrow> pystr option" where
  "re_literal [] = Some []"
| "re_literal [c] = (if c \<in> set re_meta_chars then None else Some [c])"
| "re_literal (c # d # ds) =
     (if c = backslash then
        (if is_ascii_alnum d then None else map_option ((#) d) (re_literal ds))
      else if c \<in> set re_meta_chars then None
      else map_option ((#) c) (re_literal (d # ds)))"

text \<open>
  Matching under \<^verbatim>\<open>re.IGNORECASE\<close>. A literal character of the pattern matches exactly one
  character of the text, and whether it does is decided by the engine's comparison of
  the two code points, which follows the case tables of Unicode. That comparison is the
  parameter \<open>ci\<close> of the functions below: \<open>ci p t\<close> holds when the pattern character \<open>p\<close>
  matches the text character \<open>t\<close>. Nothing is assumed about it.
\<close>

definition ci_prefix :: "(nat \<Rightarrow> nat \<Rightarrow> bool) \<Rightarrow> pystr \<Rightarrow> pystr \<Rightarrow> bool" where
  "ci_prefix ci lit s = (length lit \<le> length s \<and> list_all2 ci lit (take (length lit) s))"

text \<open>
  \<^verbatim>\<open>re.sub\<close> of a literal with \<^verbatim>\<open>flags=re.IGNORECASE\<close>: the text is read from the left; where
  the literal matches, the replacement is written and the matched characters are skipped;
  elsewhere the character is copied. The empty pattern matches before every character and
  at the end.
\<close>

function (sequential) re_sub_literal_ci ::
    "(nat \<Rightarrow> nat \<Rightarrow> bool) \<Rightarrow> pystr \<Rightarrow> pystr \<Rightarrow> pystr \<Rightarrow> pystr" where
  "re_sub_literal_ci ci [] repl s = repl @ concat (map (\<lambda>c. c # repl) s)"
| "re_sub_literal_ci ci lit repl [] = []"
| "re_sub_literal_ci ci lit repl (c # cs) =
     (if ci_prefix ci lit (c # cs)
      then repl @ re_sub_literal_ci ci lit repl (drop (length lit) (c # cs))
      else c # re_sub_literal_ci ci lit repl cs)"
  by pat_completeness auto
termination
  by (relation "measure (\<lambda>(ci, lit, repl, s). length s)") auto

definition re_sub_ci :: "(nat \<Rightarrow> nat \<Rightarrow> bool) \<Rightarrow> pystr \<Rightarrow> pystr \<Rightarrow> pystr \<Rightarrow> error + pystr" where
  "re_sub_ci ci pattern repl s =
     (case re_literal pattern of
        None \<Rightarrow> Inl ReError
      | Some lit \<Rightarrow> Inr (re_sub_literal_ci ci lit repl s))"

subsection \<open>redact\_text on Python strings\<close>

definition marker :: pystr where
  "marker = code_points ''[REDACTED]''"

text \<open>
  The loop \<^verbatim>\<open>for _, value in findings: if value: ...\<close>, with the running text
  \<^verbatim>\<open>redacted\<close> as its state; then the \<^verbatim>\<open>try\<close> around it, whose handler returns the
  original text.
\<close>

fun redact_loop_ci :: "(nat \<Rightarrow> nat \<Rightarrow> bool) \<Rightarrow> pystr \<Rightarrow> (string \<times> pystr) list \<Rightarrow> error + pystr" where
  "redact_loop_ci ci redacted [] = Inr redacted"
| "redact_loop_ci ci redacted ((label, value) # findings) =
     (if value \<noteq> [] then
        (case re_sub_ci ci (re_escape value) marker redacted of
           Inl e \<Rightarrow> Inl e
         | Inr redacted' \<Rightarrow> redact_loop_ci ci redacted' findings)
      else redact_loop_ci ci redacted findings)"

definition redact_text_ci :: "(nat \<Rightarrow> nat \<Rightarrow> bool) \<Rightarrow> pystr \<Rightarrow> (string \<times> pystr) list \<Rightarrow> pystr" where
  "redact_text_ci ci text findings =
     (case redact_loop_ci ci text findings of Inl e \<Rightarrow> text | Inr redacted \<Rightarrow> redacted)"

subsection \<open>What the specification says about redaction\<close>

text \<open>An occurrence of a literal in a text, letter case ignored as the engine does.\<close>

fun occurs_ci :: "(nat \<Rightarrow> nat \<Rightarrow> bool) \<Rightarrow> pystr \<Rightarrow> pystr \<Rightarrow> bool" where
  "occurs_ci ci lit [] = ci_prefix ci lit []"
| "occurs_ci ci lit (c # cs) = (ci_prefix ci lit (c # cs) \<or> occurs_ci ci lit cs)"

text \<open>
  \<open>all_replaced ci lit repl s s'\<close>: \<open>s'\<close> is \<open>s\<close> with all occurrences of \<open>lit\<close> replaced by
  \<open>repl\<close>, the occurrences taken from the left and not overlapping: either there is no
  occurrence and the text stays, or the text is cut at its first occurrence \<open>m\<close>, which
  becomes \<open>repl\<close>, and the rest is treated in the same way.
\<close>

inductive all_replaced :: "(nat \<Rightarrow> nat \<Rightarrow> bool) \<Rightarrow> pystr \<Rightarrow> pystr \<Rightarrow> pystr \<Rightarrow> pystr \<Rightarrow> bool" where
  ar_none: "\<not> occurs_ci ci lit s \<Longrightarrow> all_replaced ci lit repl s s"
| ar_first: "list_all2 ci lit m \<Longrightarrow>
             \<not> occurs_ci ci lit (pre @ butlast m) \<Longrightarrow> all_replaced ci lit repl post post' \<Longrightarrow>
             all_replaced ci lit repl (pre @ m @ post) (pre @ repl @ post')"

text \<open>
  \<open>redacted_by ci findings s s'\<close>: the findings are taken in order; one with an empty
  literal is discarded, every other one has all occurrences of its literal replaced by
  the marker \<open>[REDACTED]\<close>.
\<close>

inductive redacted_by :: "(nat \<Rightarrow> nat \<Rightarrow> bool) \<Rightarrow> (string \<times> pystr) list \<Rightarrow> pystr \<Rightarrow> pystr \<Rightarrow> bool" where
  rb_nil: "redacted_by ci [] s s"
| rb_discard: "redacted_by ci findings s s' \<Longrightarrow> redacted_by ci ((label, []) # findings) s s'"
| rb_replace: "v \<noteq> [] \<Longrightarrow> all_replaced ci v (code_points ''[REDACTED]'') s s1 \<Longrightarrow>
              redacted_by ci findings s1 s' \<Longrightarrow> redacted_by ci ((label, v) # findings) s s'"

subsection \<open>redact\_text on the strings of a ticket\<close>

text \<open>
  For two code points below 256 the engine's comparison is equality after lowering the
  letters A to Z and the letters of Latin-1 (192 to 222 without the multiplication sign
  215), which lie 32 below their lower-case forms.
\<close>

definition latin1_lower :: "nat \<Rightarrow> nat" where
  "latin1_lower n =
     (if (65 \<le> n \<and> n \<le> 90) \<or> (192 \<le> n \<and> n \<le> 222 \<and> n \<noteq> 215) then n + 32 else n)"

definition ci_latin1 :: "nat \<Rightarrow> nat \<Rightarrow> bool" where
  "ci_latin1 p t = (latin1_lower p = latin1_lower t)"

type_synonym finding = "string \<times> string"

definition REDACTED :: string where
  "REDACTED = ''[REDACTED]''"

definition re_sub_literal :: "string \<Rightarrow> string \<Rightarrow> string \<Rightarrow> string" where
  "re_sub_literal lit repl s =
     chars_of (re_sub_literal_ci ci_latin1 (code_points lit) (code_points repl) (code_points s))"

definition redact_text :: "string \<Rightarrow> finding list \<Rightarrow> string" where
  "redact_text text findings =
     chars_of (redact_text_ci ci_latin1 (code_points text)
                 (map (\<lambda>(label, value). (label, code_points value)) findings))"

section \<open>Detection (sensitive\_data\_detector.scan\_text)\<close>

text \<open>
  The regular-expression engine and the language model are libraries. A compiled pattern
  is taken as what it computes: the matches it finds in a text, from the left and not
  overlapping, each with the text of the whole match and of every capture group of the
  pattern (\<open>None\<close> for a group that took no part in the match). The language model is
  taken as a function from a text to its entities (label and text), or \<open>None\<close> when the
  call raises.
\<close>

record re_match =
  whole :: string
  groups :: "string option list"

type_synonym pattern = "string \<Rightarrow> re_match list"

type_synonym nlp_model = "string \<Rightarrow> (string \<times> string) list option"

text \<open>
  \<^verbatim>\<open>pattern.findall(text)\<close>: for a pattern without groups the list of the matched strings;
  with one group the list of that group's strings; with several groups a list of tuples
  of the groups' strings. A group that took no part in the match gives the empty string.
\<close>

datatype findall_item = Str string | Tuple "string list"

definition group_text :: "string option \<Rightarrow> string" where
  "group_text g = (case g of None \<Rightarrow> [] | Some s \<Rightarrow> s)"

definition findall_item_of :: "re_match \<Rightarrow> findall_item" where
  "findall_item_of m =
     (case groups m of
        [] \<Rightarrow> Str (whole m)
      | [g] \<Rightarrow> Str (group_text g)
      | g # g' # gs \<Rightarrow> Tuple (map group_text (g # g' # gs)))"

definition findall :: "pattern \<Rightarrow> string \<Rightarrow> findall_item list" where
  "findall p text = map findall_item_of (p text)"

text \<open>\<^verbatim>\<open>match_str = match if isinstance(match, str) else match[0]\<close>\<close>

fun match_str :: "findall_item \<Rightarrow> error + string" where
  "match_str (Str s) = Inr s"
| "match_str (Tuple []) = Inl IndexError"
| "match_str (Tuple (x # xs)) = Inr x"

text \<open>
  The detector object. Its two attributes are set by the constructor inside a
  \<^verbatim>\<open>try\<close>; an attribute that was never set is \<open>None\<close> here, and reading it raises
  \<^verbatim>\<open>AttributeError\<close> in the program.
\<close>

record detector =
  nlp :: "nlp_model option"
  patterns :: "(string \<times> pattern) list option"

text \<open>
  The constructor: \<^verbatim>\<open>self.nlp = spacy.load(...)\<close>, then \<^verbatim>\<open>self.patterns = {...}\<close>, the
  table of compiled rules in the order of the source; any exception is logged and
  swallowed. \<open>spacy_load\<close> is the result of loading the model (\<open>None\<close>: it raised) and
  \<open>compiled\<close> is the table of labels with their compiled patterns.
\<close>

definition init :: "nlp_model option \<Rightarrow> (string \<times> pattern) list \<Rightarrow> detector" where
  "init spacy_load compiled =
     (case spacy_load of
        None \<Rightarrow> \<lparr>nlp = None, patterns = None\<rparr>
      | Some model \<Rightarrow> \<lparr>nlp = Some model, patterns = Some compiled\<rparr>)"

text \<open>
  \<^verbatim>\<open>scan_text\<close>. The list \<^verbatim>\<open>matches\<close> is filled inside a \<^verbatim>\<open>try\<close> and returned after it, so
  an exception keeps what was appended before it. The loops return the list together
  with the exception that stopped them, if any.
\<close>

fun scan_found :: "string \<Rightarrow> findall_item list \<Rightarrow> finding list \<Rightarrow> finding list \<times> error option" where
  "scan_found label [] matches = (matches, None)"
| "scan_found label (m # found) matches =
     (case match_str m of
        Inl e \<Rightarrow> (matches, Some e)
      | Inr s \<Rightarrow> scan_found label found (matches @ [(label, s)]))"

fun scan_patterns :: "(string \<times> pattern) list \<Rightarrow> string \<Rightarrow> finding list \<Rightarrow> finding list \<times> error option" where
  "scan_patterns [] text matches = (matches, None)"
| "scan_patterns ((label, p) # items) text matches =
     (case scan_found label (findall p text) matches of
        (matches', Some e) \<Rightarrow> (matches', Some e)
      | (matches', None) \<Rightarrow> scan_patterns items text matches')"

definition person_findings :: "(string \<times> string) list \<Rightarrow> finding list" where
  "person_findings ents =
     map (\<lambda>(ent_label, ent_text). (''Full Name'', ent_text))
         (filter (\<lambda>(ent_label, ent_text). ent_label = ''PERSON'') ents)"

definition scan_text :: "detector \<Rightarrow> string \<Rightarrow> finding list" where
  "scan_text self text =
     (case patterns self of
        None \<Rightarrow> []
      | Some items \<Rightarrow>
          (case scan_patterns items text [] of
             (matches, Some e) \<Rightarrow> matches
           | (matches, None) \<Rightarrow>
               (case nlp self of
                  None \<Rightarrow> matches
                | Some model \<Rightarrow>
                    (case model text of
                       None \<Rightarrow> matches
                     | Some ents \<Rightarrow> matches @ person_findings ents))))"

text \<open>What the detector records for one match: its first group if it has groups.\<close>

definition recorded_text :: "re_match \<Rightarrow> string" where
  "recorded_text m = (case groups m of [] \<Rightarrow> whole m | g # gs \<Rightarrow> group_text g)"

text \<open>The findings of the rules: every match of every rule, in the order of the table.\<close>

definition rule_findings :: "(string \<times> pattern) list \<Rightarrow> string \<Rightarrow> finding list" where
  "rule_findings items text =
     concat (map (\<lambda>(label, p). map (\<lambda>m. (label, recorded_text m)) (p text)) items)"

section \<open>Redacting a ticket (scan\_and\_redact\_ticket)\<close>

text \<open>
  \<^verbatim>\<open>findings = {}\<close>, \<^verbatim>\<open>redacted_ticket = ticket.copy()\<close>, then for every field of the list
  \<^verbatim>\<open>["description"]\<close>: the content is read with \<^verbatim>\<open>ticket.get(field)\<close>; if it is a non-empty
  string it is scanned, and if there are matches they are stored and the field of the
  copy is replaced by the redacted content.
\<close>

type_synonym findings = "string \<rightharpoonup> finding list"

fun redact_fields :: "detector \<Rightarrow> ticket \<Rightarrow> string list \<Rightarrow> findings \<times> ticket \<Rightarrow> findings \<times> ticket" where
  "redact_fields self ticket [] acc = acc"
| "redact_fields self ticket (field # rest) (findings, redacted_ticket) =
     (case dict_get ticket field PNone of
        PStr content \<Rightarrow>
          (if content \<noteq> [] then
             (let matches = scan_text self content in
              if matches \<noteq> [] then
                redact_fields self ticket rest
                  (findings(field \<mapsto> matches),
                   redacted_ticket(field \<mapsto> PStr (redact_text content matches)))
              else redact_fields self ticket rest (findings, redacted_ticket))
           else redact_fields self ticket rest (findings, redacted_ticket))
      | _ \<Rightarrow> redact_fields self ticket rest (findings, redacted_ticket))"

definition scan_and_redact_ticket :: "detector \<Rightarrow> ticket \<Rightarrow> findings \<times> ticket" where
  "scan_and_redact_ticket self ticket =
     redact_fields self ticket [''description''] (Map.empty, ticket)"

section \<open>Azure DevOps requests (ado\_api)\<close>

text \<open>
  The HTTP layer is outside the program. Every request the program sends is appended to
  a list, and the remote system is a record of functions that answer a request given the
  list of the requests sent before it, so that its answers may depend on what was created
  or updated earlier in the run.
\<close>

definition ADO_ORG :: string where
  "ADO_ORG = ''orgName''"

definition ADO_PROJECT :: string where
  "ADO_PROJECT = ''projectName''"

text \<open>One operation of a JSON Patch document: a field value or a relation.\<close>

datatype patch_value = Plain pyval | Relation string string string

record patch_op =
  op :: string
  path :: string
  val :: patch_value

datatype request =
    Wiql pyval
  | GetWorkItem pyval
  | GetRelations pyval
  | PostBug "patch_op list"
  | PatchBug pyval "patch_op list"

datatype 'a reply = Raises error | Returns 'a

text \<open>
  The body of a work item read with its relations: \<^verbatim>\<open>data['_links']['self']['href']\<close> and
  \<^verbatim>\<open>data.get("relations")\<close>.
\<close>

record relations_doc =
  self_href :: string
  relations :: "pydict list option"

text \<open>
  \<open>wiql_reply\<close>: the request of \<^verbatim>\<open>find_existing_bug\<close>; it raises, or returns the value of
  \<^verbatim>\<open>json_data.get("workItems")\<close>. \<open>changed_date\<close>: the whole \<^verbatim>\<open>try\<close> block of
  \<^verbatim>\<open>get_work_item_last_updated\<close>, the changed date in milliseconds, or \<open>None\<close> when anything
  in it raised. \<open>relations_reply\<close>: the request of \<^verbatim>\<open>already_linked\<close>, \<open>None\<close> when the
  request or the decoding of its body raised. \<open>post_reply\<close>: the request of
  \<^verbatim>\<open>create_ado_bug\<close>, which raises or returns the decoded body. \<open>patch_reply\<close>: the request
  of \<^verbatim>\<open>update_ado_bug\<close>; it raises (\<^verbatim>\<open>requests.patch\<close>, \<^verbatim>\<open>raise_for_status\<close>), or it is
  answered, and then carries what \<^verbatim>\<open>response.json()\<close> does: the exception it raises or the
  decoded body. The two stages are kept apart because \<^verbatim>\<open>update_ado_bug\<close> reads
  \<^verbatim>\<open>ticket['id']\<close> between them.
\<close>

record ado =
  wiql_reply :: "request list \<Rightarrow> pyval \<Rightarrow> pydict list option reply"
  changed_date :: "request list \<Rightarrow> pyval \<Rightarrow> real option"
  relations_reply :: "request list \<Rightarrow> pyval \<Rightarrow> relations_doc option"
  post_reply :: "request list \<Rightarrow> patch_op list \<Rightarrow> pydict reply"
  patch_reply :: "request list \<Rightarrow> pyval \<Rightarrow> patch_op list \<Rightarrow> (error + pydict) reply"

text \<open>
  \<^verbatim>\<open>find_existing_bug\<close>: only \<^verbatim>\<open>requests.RequestException\<close> is caught (and gives \<^verbatim>\<open>None\<close>);
  \<^verbatim>\<open>work_items[0]["id"] if work_items else None\<close>.
\<close>

definition find_existing_bug :: "ado \<Rightarrow> pyval \<Rightarrow> request list \<Rightarrow> (error + pyval) \<times> request list" where
  "find_existing_bug env sysaid_id sent =
     ((case wiql_reply env sent sysaid_id of
         Raises e \<Rightarrow> (if e = RequestException then Inr PNone else Inl e)
       | Returns work_items \<Rightarrow>
           (case (case work_items of None \<Rightarrow> [] | Some ws \<Rightarrow> ws) of
              [] \<Rightarrow> Inr PNone
            | w # ws \<Rightarrow> dict_item w ''id'')),
      sent @ [Wiql sysaid_id])"

text \<open>\<^verbatim>\<open>get_work_item_last_updated\<close>: every exception is caught and gives 0.\<close>

definition get_work_item_last_updated :: "ado \<Rightarrow> pyval \<Rightarrow> request list \<Rightarrow> real \<times> request list" where
  "get_work_item_last_updated env bug_id sent =
     ((case changed_date env sent bug_id of None \<Rightarrow> 0 | Some ms \<Rightarrow> ms),
      sent @ [GetWorkItem bug_id])"

definition field_op :: "string \<Rightarrow> pyval \<Rightarrow> patch_op" where
  "field_op p v = \<lparr>op = ''add'', path = p, val = Plain v\<rparr>"

definition parent_link_op :: "pyval \<Rightarrow> patch_op" where
  "parent_link_op parent_id =
     \<lparr>op = ''add'', path = ''/relations/-'',
      val = Relation ''System.LinkTypes.Hierarchy-Reverse''
              (''https://dev.azure.com/'' @ ADO_ORG @ ''/'' @ ADO_PROJECT
                 @ ''/_apis/wit/workItems/'' @ py_str parent_id)
              ''Linked to parent work item via SysAid integration''\<rparr>"

text \<open>The list \<^verbatim>\<open>bug_data\<close> of \<^verbatim>\<open>create_ado_bug\<close>, before the optional parent link.\<close>

definition create_fields :: "ticket \<Rightarrow> error + patch_op list" where
  "create_fields ticket =
     (case dict_item ticket ''title'' of Inl e \<Rightarrow> Inl e | Inr title \<Rightarrow>
     (case dict_item ticket ''description'' of Inl e \<Rightarrow> Inl e | Inr description \<Rightarrow>
     (case dict_item ticket ''id'' of Inl e \<Rightarrow> Inl e | Inr ident \<Rightarrow>
     (case dict_item ticket ''priority'' of Inl e \<Rightarrow> Inl e | Inr priority \<Rightarrow>
        Inr [field_op ''/fields/System.Title'' title,
             field_op ''/fields/System.Description'' description,
             field_op ''/fields/Custom.SysAidID'' (PStr (py_str ident)),
             field_op ''/fields/Microsoft.VSTS.Common.Priority'' (PInt (map_priority priority))]))))"

definition create_ado_bug :: "ado \<Rightarrow> ticket \<Rightarrow> request list \<Rightarrow> (error + pydict) \<times> request list" where
  "create_ado_bug env ticket sent =
     (case create_fields ticket of
        Inl e \<Rightarrow> (Inl e, sent)
      | Inr base \<Rightarrow>
          (let parent_id = dict_get ticket ''parent_id'' PNone;
               bug_data = (if py_truthy parent_id then base @ [parent_link_op parent_id] else base)
           in ((case post_reply env sent bug_data of
                  Raises e \<Rightarrow> Inl e
                | Returns new_bug \<Rightarrow> Inr new_bug),
               sent @ [PostBug bug_data])))"

text \<open>
  \<^verbatim>\<open>already_linked\<close>, the function nested in \<^verbatim>\<open>update_ado_bug\<close>:
  \<^verbatim>\<open>data['_links']['self']['href'].rsplit('/', 1)[0]\<close> followed by \<^verbatim>\<open>/{parent_id}\<close> is compared
  with the \<^verbatim>\<open>url\<close> of every relation of type \<^verbatim>\<open>System.LinkTypes.Hierarchy-Reverse\<close>; every
  exception is caught and gives \<^verbatim>\<open>False\<close>.
\<close>

definition rsplit1_head :: "string \<Rightarrow> string" where
  "rsplit1_head s =
     (if CHR ''/'' \<in> set s then rev (tl (dropWhile (\<lambda>c. c \<noteq> CHR ''/'') (rev s))) else s)"

definition already_linked :: "ado \<Rightarrow> pyval \<Rightarrow> pyval \<Rightarrow> request list \<Rightarrow> bool \<times> request list" where
  "already_linked env bug_id parent_id sent =
     ((case relations_reply env sent bug_id of
         None \<Rightarrow> False
       | Some data \<Rightarrow>
           (let rels = (case relations data of None \<Rightarrow> [] | Some rs \<Rightarrow> rs);
                parent_url = rsplit1_head (self_href data) @ ''/'' @ py_str parent_id
            in list_ex (\<lambda>r. dict_get r ''url'' PNone = PStr parent_url \<and>
                             dict_get r ''rel'' PNone = PStr ''System.LinkTypes.Hierarchy-Reverse'')
                       rels)),
      sent @ [GetRelations bug_id])"

text \<open>The list \<^verbatim>\<open>bug_data\<close> of \<^verbatim>\<open>update_ado_bug\<close>, before the optional parent link.\<close>

definition update_fields :: "ticket \<Rightarrow> error + patch_op list" where
  "update_fields ticket =
     (case dict_item ticket ''title'' of Inl e \<Rightarrow> Inl e | Inr title \<Rightarrow>
     (case dict_item ticket ''description'' of Inl e \<Rightarrow> Inl e | Inr description \<Rightarrow>
     (case dict_item ticket ''priority'' of Inl e \<Rightarrow> Inl e | Inr priority \<Rightarrow>
        Inr [field_op ''/fields/System.Title'' title,
             field_op ''/fields/System.Description'' description,
             field_op ''/fields/Microsoft.VSTS.Common.Priority'' (PInt (map_priority priority))])))"

text \<open>
  \<^verbatim>\<open>if ticket.get("parent_id") and not already_linked(bug_id, ticket["parent_id"])\<close>: the check
  is called only when the parent identifier is true. After an answered request the line
  that logs the update formats \<^verbatim>\<open>ticket['id']\<close>, and so does the handler of
  \<^verbatim>\<open>requests.RequestException\<close> before it raises again: for a ticket without \<open>id\<close> both end
  in \<^verbatim>\<open>KeyError\<close>.
\<close>

definition update_ado_bug :: "ado \<Rightarrow> pyval \<Rightarrow> ticket \<Rightarrow> request list \<Rightarrow> (error + pydict) \<times> request list" where
  "update_ado_bug env bug_id ticket sent =
     (case update_fields ticket of
        Inl e \<Rightarrow> (Inl e, sent)
      | Inr base \<Rightarrow>
          (let parent_id = dict_get ticket ''parent_id'' PNone;
               (linked, sent1) = (if py_truthy parent_id then already_linked env bug_id parent_id sent
                                 else (False, sent));
               bug_data = (if py_truthy parent_id \<and> \<not> linked then base @ [parent_link_op parent_id]
                           else base)
           in ((case patch_reply env sent1 bug_id bug_data of
                  Raises e \<Rightarrow>
                    (if e = RequestException then
                       (case dict_item ticket ''id'' of Inl k \<Rightarrow> Inl k | Inr ident \<Rightarrow> Inl e)
                     else Inl e)
                | Returns decoded \<Rightarrow>
                    (case dict_item ticket ''id'' of
                       Inl k \<Rightarrow> Inl k
                     | Inr ident \<Rightarrow>
                         (case decoded of
                            Inl e \<Rightarrow> Inl e
                          | Inr body \<Rightarrow> Inr body))),
               sent1 @ [PatchBug bug_id bug_data])))"

section \<open>The run (main)\<close>

text \<open>
  \<^verbatim>\<open>ticket.get("update_time", 0) > ado_updated_ts\<close>: the remote time is a float or the
  integer 0; Python compares an integer with a float by their exact values, and refuses
  to order \<^verbatim>\<open>None\<close> or a string against a number.
\<close>

fun py_gt :: "pyval \<Rightarrow> real \<Rightarrow> error + bool" where
  "py_gt (PInt i) r = Inr (real_of_int i > r)"
| "py_gt PNone r = Inl TypeError"
| "py_gt (PStr s) r = Inl TypeError"

text \<open>
  How the body of the \<^verbatim>\<open>try\<close> ends for one ticket: the branch that logs
  \<^verbatim>\<open>Created\<close>, the branch that logs \<^verbatim>\<open>Updated\<close>, or the branch that logs
  \<^verbatim>\<open>unchanged since ADO last update; skipping\<close>. An exception is the left summand.
\<close>

datatype outcome = Created pyval | Updated pyval | Skipped

definition sync_ticket :: "ado \<Rightarrow> detector \<Rightarrow> pyval \<Rightarrow> ticket \<Rightarrow> request list \<Rightarrow> (error + outcome) \<times> request list" where
  "sync_ticket env det sysaid_id ticket0 sent =
     (let (findings, ticket) = scan_and_redact_ticket det ticket0;
          (found, sent1) = find_existing_bug env sysaid_id sent
      in case found of
           Inl e \<Rightarrow> (Inl e, sent1)
         | Inr existing_bug_id \<Rightarrow>
             if py_truthy existing_bug_id then
               (let (ado_updated_ts, sent2) = get_work_item_last_updated env existing_bug_id sent1
                in case py_gt (dict_get ticket ''update_time'' (PInt 0)) ado_updated_ts of
                     Inl e \<Rightarrow> (Inl e, sent2)
                   | Inr newer \<Rightarrow>
                       if newer then
                         (case update_ado_bug env existing_bug_id ticket sent2 of
                            (Inl e, sent3) \<Rightarrow> (Inl e, sent3)
                          | (Inr body, sent3) \<Rightarrow> (Inr (Updated existing_bug_id), sent3))
                       else (Inr Skipped, sent2))
             else
               (case create_ado_bug env ticket sent1 of
                  (Inl e, sent2) \<Rightarrow> (Inl e, sent2)
                | (Inr new_bug, sent2) \<Rightarrow>
                    (case dict_item new_bug ''id'' of
                       Inl e \<Rightarrow> (Inl e, sent2)
                     | Inr new_id \<Rightarrow> (Inr (Created new_id), sent2))))"

record counters =
  created_count :: nat
  updated_count :: nat
  failed_count :: nat

text \<open>
  The loop \<^verbatim>\<open>for ticket in tickets\<close>. \<^verbatim>\<open>sysaid_id = ticket["id"]\<close> stands before the
  \<^verbatim>\<open>try\<close>; everything else is inside it, and the handler counts the failure.
\<close>

fun run_loop :: "ado \<Rightarrow> detector \<Rightarrow> ticket list \<Rightarrow> counters \<Rightarrow> request list \<Rightarrow> error + counters \<times> request list" where
  "run_loop env det [] c sent = Inr (c, sent)"
| "run_loop env det (ticket # tickets) c sent =
     (case dict_item ticket ''id'' of
        Inl e \<Rightarrow> Inl e
      | Inr sysaid_id \<Rightarrow>
          (case sync_ticket env det sysaid_id ticket sent of
             (Inl e, sent') \<Rightarrow>
               run_loop env det tickets (c\<lparr>failed_count := failed_count c + 1\<rparr>) sent'
           | (Inr (Created new_id), sent') \<Rightarrow>
               run_loop env det tickets (c\<lparr>created_count := created_count c + 1\<rparr>) sent'
           | (Inr (Updated bug_id), sent') \<Rightarrow>
               run_loop env det tickets (c\<lparr>updated_count := updated_count c + 1\<rparr>) sent'
           | (Inr Skipped, sent') \<Rightarrow> run_loop env det tickets c sent'))"

definition summary :: "counters \<Rightarrow> string" where
  "summary c =
     ''Summary: '' @ str_nat (created_count c) @ '' created, '' @ str_nat (updated_count c)
       @ '' updated, '' @ str_nat (failed_count c) @ '' failed''"

text \<open>
  \<open>main\<close> given the tickets fetched and the detector constructed: the counters start at
  zero, and the summary line is logged after the loop. The result is the summary line,
  or the exception that left the function.
\<close>

definition main :: "ado \<Rightarrow> detector \<Rightarrow> ticket list \<Rightarrow> error + string" where
  "main env det tickets =
     (case run_loop env det tickets \<lparr>created_count = 0, updated_count = 0, failed_count = 0\<rparr> [] of
        Inl e \<Rightarrow> Inl e
      | Inr (c, sent) \<Rightarrow> Inr (summary c))"

text \<open>The requests that change the remote system.\<close>

fun is_mutation :: "request \<Rightarrow> bool" where
  "is_mutation (PostBug bug_data) = True"
| "is_mutation (PatchBug bug_id bug_data) = True"
| "is_mutation r = False"

section \<open>The ticket source (sysaid\_api.generate\_fake\_sysaid\_ticket)\<close>

text \<open>
  \<^verbatim>\<open>fetch_sysaid_tickets\<close> builds every ticket with this function. Its random choices (the
  title, the description, the priority, the parent identifier, which is the empty string
  or a work item number, and the creation date) are arguments here. The ticket is
  redacted once before it is returned.
\<close>

definition generate_fake_sysaid_ticket ::
    "detector \<Rightarrow> int \<Rightarrow> string \<Rightarrow> string \<Rightarrow> string \<Rightarrow> pyval \<Rightarrow> string \<Rightarrow> ticket" where
  "generate_fake_sysaid_ticket det ticket_id title description priority parent_id created_at =
     snd (scan_and_redact_ticket det
            [''id'' \<mapsto> PInt ticket_id,
             ''title'' \<mapsto> PStr title,
             ''description'' \<mapsto> PStr description,
             ''status'' \<mapsto> PStr ''Open'',
             ''priority'' \<mapsto> PStr priority,
             ''parent_id'' \<mapsto> parent_id,
             ''created_at'' \<mapsto> PStr created_at])"

section \<open>Concrete runs\<close>

text \<open>
  A small detector, tickets and remote systems on which the theorems below are
  instantiated. The rule \<open>SSN\<close> has no group; \<open>Billing Info\<close> has one optional group, which
  takes no part in the match; \<open>ICD Code\<close> has two groups, the second optional.
\<close>

definition demo_description :: string where
  "demo_description = ''SSN 123-45-6789, billing 400, ICD: A12.3''"

definition demo_compiled :: "(string \<times> pattern) list" where
  "demo_compiled =
     [(''SSN'', \<lambda>text. if text = demo_description
                          then [\<lparr>whole = ''123-45-6789'', groups = []\<rparr>] else []),
      (''Billing Info'', \<lambda>text. if text = demo_description
                          then [\<lparr>whole = ''billing 400'', groups = [None]\<rparr>] else []),
      (''ICD Code'', \<lambda>text. if text = demo_description
                          then [\<lparr>whole = ''ICD: A12.3'', groups = [Some ''ICD'', None]\<rparr>] else [])]"

definition demo_detector :: detector where
  "demo_detector = init (Some (\<lambda>text. Some [])) demo_compiled"

definition demo_ticket :: ticket where
  "demo_ticket =
     [''id'' \<mapsto> PInt 42,
      ''title'' \<mapsto> PStr ''Mobile App - Login failure'',
      ''description'' \<mapsto> PStr demo_description,
      ''priority'' \<mapsto> PStr ''High'',
      ''parent_id'' \<mapsto> PInt 7,
      ''update_time'' \<mapsto> PInt 1000]"

text \<open>
  A remote system that knows no work item and accepts every request, one whose create
  request fails, one whose lookup request fails, and one that holds work item 501,
  changed at the given time and already linked to parent 7.
\<close>

definition empty_ado :: ado where
  "empty_ado =
     \<lparr>wiql_reply = (\<lambda>sent sysaid_id. Returns (Some [])),
      changed_date = (\<lambda>sent bug_id. None),
      relations_reply = (\<lambda>sent bug_id. None),
      post_reply = (\<lambda>sent bug_data. Returns [''id'' \<mapsto> PInt 501]),
      patch_reply = (\<lambda>sent bug_id bug_data. Returns (Inr [''id'' \<mapsto> bug_id]))\<rparr>"

definition failing_create_ado :: ado where
  "failing_create_ado = empty_ado\<lparr>post_reply := (\<lambda>sent bug_data. Raises RequestException)\<rparr>"

definition failing_lookup_ado :: ado where
  "failing_lookup_ado = empty_ado\<lparr>wiql_reply := (\<lambda>sent sysaid_id. Raises RequestException)\<rparr>"

definition holding_ado :: "real \<Rightarrow> ado" where
  "holding_ado changed =
     empty_ado
       \<lparr>wiql_reply := (\<lambda>sent sysaid_id. Returns (Some [[''id'' \<mapsto> PInt 501]])),
        changed_date := (\<lambda>sent bug_id. Some changed),
        relations_reply := (\<lambda>sent bug_id. Some
           \<lparr>self_href = ''https://dev.azure.com/orgName/_apis/wit/workItems/501'',
            relations = Some [[''rel'' \<mapsto> PStr ''System.LinkTypes.Hierarchy-Reverse'',
                               ''url'' \<mapsto> PStr ''https://dev.azure.com/orgName/_apis/wit/workItems/7'']]\<rparr>)\<rparr>"

section \<open>Priority mapping: the properties\<close>

text \<open>
  Claim C6. \<open>map_priority\<close> is a total function into \<open>{1, 2, 3}\<close>: it sends \<open>High\<close> to 1,
  \<open>Medium\<close> to 2, \<open>Low\<close> to 3, and every other value (the empty string, \<^verbatim>\<open>None\<close>,
  \<open>Unknown\<close>, any other label, a number) to 2. The function has no error result: a
  dictionary lookup with a default raises nothing on these values.
\<close>

theorem map_priority_total:
  "map_priority p \<in> {1, 2, 3} \<and>
   map_priority (PStr ''High'') = 1 \<and>
   map_priority (PStr ''Medium'') = 2 \<and>
   map_priority (PStr ''Low'') = 3 \<and>
   map_priority (PStr '''') = 2 \<and>
   map_priority PNone = 2 \<and>
   map_priority (PStr ''Unknown'') = 2 \<and>
   (p \<notin> {PStr ''High'', PStr ''Medium'', PStr ''Low''} \<longrightarrow> map_priority p = 2)"
  by (simp add: map_priority_def priority_mapping_def)

theorem map_priority_total_witness:
  "PStr ''Urgent'' \<notin> {PStr ''High'', PStr ''Medium'', PStr ''Low''} \<and>
   map_priority (PStr ''Urgent'') = 2 \<and>
   map_priority (PInt 1) = 2"
  using map_priority_total [of "PStr ''Urgent''"] map_priority_total [of "PInt 1"]
  by simp

section \<open>Redaction: the properties\<close>

subsection \<open>Escaping\<close>

lemma special_not_alnum: "c \<in> set re_special_chars \<Longrightarrow> \<not> is_ascii_alnum c"
  by (auto simp: re_special_chars_def is_ascii_alnum_def backslash_def code_points_def)

lemma meta_special: "c \<in> set re_meta_chars \<Longrightarrow> c \<in> set re_special_chars"
  by (auto simp: re_special_chars_def re_meta_chars_def code_points_def)

lemma backslash_special: "backslash \<in> set re_special_chars"
  by (simp add: re_special_chars_def)

lemma re_escape_Cons:
  "re_escape (c # cs) =
     (if c \<in> set re_special_chars then backslash # c # re_escape cs else c # re_escape cs)"
  by (simp add: re_escape_def)

lemma re_escape_Nil: "re_escape [] = []"
  by (simp add: re_escape_def)

lemma re_literal_plain:
  "c \<notin> set re_special_chars \<Longrightarrow> re_literal (c # p) = map_option ((#) c) (re_literal p)"
  using meta_special [of c] backslash_special
  by (cases p) auto

lemma re_literal_escaped:
  "c \<in> set re_special_chars \<Longrightarrow>
   re_literal (backslash # c # p) = map_option ((#) c) (re_literal p)"
  by (simp add: special_not_alnum)

lemma re_literal_escape: "re_literal (re_escape v) = Some v"
  by (induction v)
     (simp_all add: re_escape_Nil re_escape_Cons re_literal_plain re_literal_escaped
               del: re_literal.simps(2,3))

lemma re_sub_escape: "re_sub_ci ci (re_escape v) repl s = Inr (re_sub_literal_ci ci v repl s)"
  by (simp add: re_sub_ci_def re_literal_escape)

subsection \<open>Replacing a literal\<close>

lemma occurs_ci_length: "occurs_ci ci lit s \<Longrightarrow> length lit \<le> length s"
  by (induction s) (auto simp: ci_prefix_def)

lemma ci_prefix_append:
  "length lit \<le> length a \<Longrightarrow> ci_prefix ci lit (a @ b) = ci_prefix ci lit a"
  by (simp add: ci_prefix_def)

lemma ci_prefix_self: "list_all2 ci lit m \<Longrightarrow> ci_prefix ci lit (m @ post)"
  by (simp add: ci_prefix_def list_all2_lengthD)

lemma butlast_snoc_append: "m \<noteq> [] \<Longrightarrow> (a @ butlast m) @ (last m # post) = a @ m @ post"
proof -
  assume "m \<noteq> []"
  then have "butlast m @ [last m] = m" by simp
  then have "butlast m @ last m # post = m @ post"
    by (metis append.assoc append_Cons append_Nil)
  then show ?thesis by simp
qed

lemma ci_prefix_cut:
  assumes "length m = length lit" "lit \<noteq> []"
  shows "ci_prefix ci lit (c # pre @ m @ post) = ci_prefix ci lit (c # pre @ butlast m)"
proof -
  have len: "length lit \<le> length ((c # pre) @ butlast m)" using assms by simp
  have "m \<noteq> []" using assms by auto
  then have "(c # pre) @ m @ post = ((c # pre) @ butlast m) @ (last m # post)"
    by (rule butlast_snoc_append [symmetric])
  then have "ci_prefix ci lit ((c # pre) @ m @ post) =
             ci_prefix ci lit (((c # pre) @ butlast m) @ (last m # post))"
    by (rule arg_cong)
  also have "\<dots> = ci_prefix ci lit ((c # pre) @ butlast m)"
    by (rule ci_prefix_append [OF len])
  finally show ?thesis by simp
qed

lemma re_sub_literal_absent:
  "lit \<noteq> [] \<Longrightarrow> \<not> occurs_ci ci lit s \<Longrightarrow> re_sub_literal_ci ci lit repl s = s"
proof (induction s)
  case Nil
  then show ?case by (cases lit) simp_all
next
  case (Cons c cs)
  then show ?case by (cases lit) simp_all
qed

lemma re_sub_literal_first:
  assumes "lit \<noteq> []" "list_all2 ci lit m"
  shows "\<not> occurs_ci ci lit (pre @ butlast m) \<Longrightarrow>
         re_sub_literal_ci ci lit repl (pre @ m @ post) =
           pre @ repl @ re_sub_literal_ci ci lit repl post"
proof (induction pre)
  case Nil
  from assms obtain x xs where lit: "lit = x # xs" by (cases lit) auto
  have len: "length m = length lit" using assms(2) by (simp add: list_all2_lengthD)
  from len lit obtain y ys where m: "m = y # ys" by (cases m) auto
  have "ci_prefix ci lit (m @ post)" using assms by (simp add: ci_prefix_self)
  then show ?case using lit m len by simp
next
  case (Cons p ps)
  from assms obtain x xs where lit: "lit = x # xs" by (cases lit) auto
  have len: "length m = length lit" using assms(2) by (simp add: list_all2_lengthD)
  have "\<not> ci_prefix ci lit (p # ps @ butlast m)" using Cons.prems by simp
  then have "\<not> ci_prefix ci lit (p # ps @ m @ post)"
    using ci_prefix_cut [OF len assms(1)] by simp
  moreover have "\<not> occurs_ci ci lit (ps @ butlast m)" using Cons.prems by simp
  ultimately show ?case using Cons.IH lit by simp
qed

lemma all_replaced_unique:
  "all_replaced ci lit repl s s' \<Longrightarrow> lit \<noteq> [] \<Longrightarrow> s' = re_sub_literal_ci ci lit repl s"
  by (induction rule: all_replaced.induct)
     (simp_all add: re_sub_literal_absent re_sub_literal_first)

lemma all_replaced_Cons:
  assumes "all_replaced ci lit repl cs r" "\<not> ci_prefix ci lit (c # cs)" "lit \<noteq> []"
  shows "all_replaced ci lit repl (c # cs) (c # r)"
  using assms(1)
proof (cases rule: all_replaced.cases)
  case ar_none
  then show ?thesis using assms(2) by (simp add: all_replaced.ar_none)
next
  case (ar_first m pre post post')
  have len: "length m = length lit" using ar_first(3) by (simp add: list_all2_lengthD)
  have "\<not> ci_prefix ci lit (c # pre @ butlast m)"
    using assms(2) ar_first(1) ci_prefix_cut [OF len assms(3)] by simp
  then have "\<not> occurs_ci ci lit ((c # pre) @ butlast m)" using ar_first by simp
  from all_replaced.ar_first [OF ar_first(3) this ar_first(5)]
  show ?thesis using ar_first by simp
qed

lemma all_replaced_re_sub_literal:
  "lit \<noteq> [] \<Longrightarrow> all_replaced ci lit repl s (re_sub_literal_ci ci lit repl s)"
proof (induction ci lit repl s rule: re_sub_literal_ci.induct)
  case (1 ci repl s)
  then show ?case by simp
next
  case (2 ci v va repl)
  then show ?case by (simp add: all_replaced.ar_none ci_prefix_def)
next
  case (3 ci v va repl c cs)
  let ?lit = "v # va"
  show ?case
  proof (cases "ci_prefix ci ?lit (c # cs)")
    case True
    let ?m = "take (length ?lit) (c # cs)"
    let ?post = "drop (length ?lit) (c # cs)"
    have e: "list_all2 ci ?lit ?m" using True by (simp add: ci_prefix_def)
    have l: "length ?m = length ?lit" by (rule list_all2_lengthD [OF e, symmetric])
    have "length (butlast ?m) < length ?lit" using l by simp
    then have n: "\<not> occurs_ci ci ?lit ([] @ butlast ?m)"
      using occurs_ci_length [of ci ?lit "butlast ?m"] by auto
    have r: "all_replaced ci ?lit repl ?post (re_sub_literal_ci ci ?lit repl ?post)"
      using 3 True by simp
    from all_replaced.ar_first [OF e n r]
    have "all_replaced ci ?lit repl (?m @ ?post) (repl @ re_sub_literal_ci ci ?lit repl ?post)"
      by simp
    then show ?thesis using True by simp
  next
    case False
    then have "all_replaced ci ?lit repl cs (re_sub_literal_ci ci ?lit repl cs)" using 3 by simp
    from all_replaced_Cons [OF this False] show ?thesis using False by simp
  qed
qed

lemma all_replaced_iff:
  "lit \<noteq> [] \<Longrightarrow> all_replaced ci lit repl s s' \<longleftrightarrow> s' = re_sub_literal_ci ci lit repl s"
  using all_replaced_unique all_replaced_re_sub_literal by blast

subsection \<open>The loop over the findings\<close>

lemma redact_loop_Inr: "\<exists>r. redact_loop_ci ci s findings = Inr r"
  by (induction ci s findings rule: redact_loop_ci.induct) (simp_all add: re_sub_escape)

lemma redact_text_ci_Nil: "redact_text_ci ci s [] = s"
  by (simp add: redact_text_ci_def)

lemma redact_text_ci_Cons:
  "redact_text_ci ci s ((label, v) # findings) =
     (if v \<noteq> [] then redact_text_ci ci (re_sub_literal_ci ci v marker s) findings
      else redact_text_ci ci s findings)"
  using redact_loop_Inr [of ci "re_sub_literal_ci ci v marker s" findings]
        redact_loop_Inr [of ci s findings]
  by (auto simp: redact_text_ci_def re_sub_escape)

lemma redacted_by_iff: "redacted_by ci findings s s' \<longleftrightarrow> s' = redact_text_ci ci s findings"
proof
  show "redacted_by ci findings s s' \<Longrightarrow> s' = redact_text_ci ci s findings"
    by (induction rule: redacted_by.induct)
       (simp_all add: redact_text_ci_Nil redact_text_ci_Cons all_replaced_iff marker_def)
next
  have "redacted_by ci findings s (redact_text_ci ci s findings)"
  proof (induction findings arbitrary: s)
    case Nil
    show ?case by (simp add: redact_text_ci_Nil rb_nil)
  next
    case (Cons f findings)
    obtain label v where f: "f = (label, v)" by (cases f)
    show ?case
    proof (cases "v = []")
      case True
      then show ?thesis using Cons [of s] f by (simp add: redact_text_ci_Cons rb_discard)
    next
      case False
      have "all_replaced ci v (code_points ''[REDACTED]'') s (re_sub_literal_ci ci v marker s)"
        using all_replaced_re_sub_literal [OF False] by (simp add: marker_def)
      from rb_replace [OF False this Cons [of "re_sub_literal_ci ci v marker s"]]
      show ?thesis using False f by (simp add: redact_text_ci_Cons)
    qed
  qed
  then show "s' = redact_text_ci ci s findings \<Longrightarrow> redacted_by ci findings s s'" by simp
qed

lemma redact_text_fixed:
  "\<forall>(label, v) \<in> set findings. v \<noteq> [] \<longrightarrow> \<not> occurs_ci ci v s \<Longrightarrow>
   redact_text_ci ci s findings = s"
  by (induction findings)
     (auto simp: redact_text_ci_Nil redact_text_ci_Cons re_sub_literal_absent)

subsection \<open>The strings of a ticket\<close>

lemma chars_of_code_points: "chars_of (code_points s) = s"
  by (simp add: chars_of_def code_points_def comp_def)

lemma code_points_Nil_iff: "code_points v = [] \<longleftrightarrow> v = []"
  by (simp add: code_points_def)

text \<open>
  Redaction of a ticket string is the redaction of its code points: the result holds
  only code points of the text and of the marker, so nothing is lost when it is read
  back as a string.
\<close>

lemma re_sub_literal_ci_set: "set (re_sub_literal_ci ci lit repl s) \<subseteq> set repl \<union> set s"
proof (induction ci lit repl s rule: re_sub_literal_ci.induct)
  case (1 ci repl s)
  then show ?case by auto
next
  case (2 ci v va repl)
  then show ?case by simp
next
  case (3 ci v va repl c cs)
  show ?case
  proof (cases "ci_prefix ci (v # va) (c # cs)")
    case True
    have "set (drop (length va) cs) \<subseteq> set cs" by (rule set_drop_subset)
    then show ?thesis using 3 True by auto
  next
    case False
    then show ?thesis using 3 by auto
  qed
qed

lemma redact_text_ci_set: "set (redact_text_ci ci s findings) \<subseteq> set marker \<union> set s"
proof (induction findings arbitrary: s)
  case Nil
  show ?case by (simp add: redact_text_ci_Nil)
next
  case (Cons f findings)
  obtain label v where f: "f = (label, v)" by (cases f)
  show ?case
  proof (cases "v = []")
    case True
    then show ?thesis using Cons [of s] f by (simp add: redact_text_ci_Cons)
  next
    case False
    have "set (redact_text_ci ci (re_sub_literal_ci ci v marker s) findings)
            \<subseteq> set marker \<union> set (re_sub_literal_ci ci v marker s)"
      by (rule Cons)
    also have "\<dots> \<subseteq> set marker \<union> set s"
      using re_sub_literal_ci_set [of ci v marker s] by auto
    finally show ?thesis using False f by (simp add: redact_text_ci_Cons)
  qed
qed

lemma code_points_bound: "x \<in> set (code_points s) \<Longrightarrow> x < 256"
  by (auto simp: code_points_def)

lemma code_points_chars_of: "\<forall>x \<in> set xs. x < 256 \<Longrightarrow> code_points (chars_of xs) = xs"
  by (induction xs) (simp_all add: code_points_def chars_of_def)

lemma redact_text_code_points:
  "code_points (redact_text text findings) =
     redact_text_ci ci_latin1 (code_points text)
       (map (\<lambda>(label, value). (label, code_points value)) findings)"
proof -
  let ?r = "redact_text_ci ci_latin1 (code_points text)
              (map (\<lambda>(label, value). (label, code_points value)) findings)"
  have "set ?r \<subseteq> set marker \<union> set (code_points text)" by (rule redact_text_ci_set)
  then have "\<forall>x \<in> set ?r. x < 256"
    using code_points_bound by (auto simp: marker_def)
  then show ?thesis by (simp add: redact_text_def code_points_chars_of)
qed

lemma redact_text_Nil: "redact_text s [] = s"
  by (simp add: redact_text_def redact_text_ci_Nil chars_of_code_points)

lemma redact_text_single:
  "redact_text s [(label, v)] = (if v \<noteq> [] then re_sub_literal v REDACTED s else s)"
  by (simp add: redact_text_def re_sub_literal_def redact_text_ci_Cons redact_text_ci_Nil
        code_points_Nil_iff chars_of_code_points marker_def REDACTED_def)

text \<open>
  Claim C5. For every text and findings list, \<open>redact_text\<close> takes the findings in order,
  discards a finding whose literal is empty, and for every other finding replaces all
  occurrences of its literal, letter case ignored, by the marker \<open>[REDACTED]\<close>. The
  literal is escaped first, and the escaped pattern denotes the literal itself, whatever
  characters it contains: the substitution with the escaped pattern is the substitution
  of the literal. The result of \<open>redact_text\<close> is the only text that \<open>redacted_by\<close>
  relates to the input. This holds for texts of any code points and for whatever
  comparison of two characters the engine makes when it ignores case.
\<close>

theorem redact_text_replaces_literals:
  "re_sub_ci ci (re_escape v) marker s = Inr (re_sub_literal_ci ci v marker s) \<and>
   (redacted_by ci findings text result \<longleftrightarrow> result = redact_text_ci ci text findings)"
  by (simp add: re_sub_escape redacted_by_iff)

theorem redact_text_replaces_literals_witness:
  "re_sub_ci ci_latin1 (re_escape (code_points ''a.c'')) marker (code_points ''abc A.C'') =
     Inr (code_points ''abc [REDACTED]'') \<and>
   redacted_by ci_latin1
     [(''SSN'', code_points ''123-45-6789''), (''Billing Info'', []), (''Word'', [99, 97, 102, 233])]
     ([67, 65, 70, 201] @ code_points '' 123-45-6789 '' @ [99, 97, 102, 233])
     (code_points ''[REDACTED] [REDACTED] [REDACTED]'')"
proof -
  let ?findings = "[(''SSN'', code_points ''123-45-6789''), (''Billing Info'', []),
                    (''Word'', [99, 97, 102, 233])]"
  let ?text = "[67, 65, 70, 201] @ code_points '' 123-45-6789 '' @ [99, 97, 102, 233]"
  have s: "re_sub_literal_ci ci_latin1 (code_points ''a.c'') marker (code_points ''abc A.C'') =
           code_points ''abc [REDACTED]''"
    by code_simp
  have r: "redact_text_ci ci_latin1 ?text ?findings =
           code_points ''[REDACTED] [REDACTED] [REDACTED]''"
    by code_simp
  from redact_text_replaces_literals [of ci_latin1 "code_points ''a.c''" "code_points ''abc A.C''"
         ?findings ?text "code_points ''[REDACTED] [REDACTED] [REDACTED]''"]
  show ?thesis by (simp only: s r)
qed

text \<open>
  Claim C7. If, after one application of \<open>redact_text\<close>, no non-empty literal of the
  findings occurs in the result (letter case ignored, as the engine compares), then a
  second application with the same findings changes nothing.
\<close>

theorem redact_text_idempotent:
  assumes "\<forall>(label, v) \<in> set findings.
             v \<noteq> [] \<longrightarrow> \<not> occurs_ci ci v (redact_text_ci ci text findings)"
  shows "redact_text_ci ci (redact_text_ci ci text findings) findings =
           redact_text_ci ci text findings"
  using assms by (rule redact_text_fixed)

theorem redact_text_idempotent_witness:
  "\<not> occurs_ci ci_latin1 (code_points ''123-45-6789'')
       (redact_text_ci ci_latin1 (code_points ''SSN 123-45-6789'')
          [(''SSN'', code_points ''123-45-6789''), (''Billing Info'', [])]) \<and>
   redact_text_ci ci_latin1
     (redact_text_ci ci_latin1 (code_points ''SSN 123-45-6789'')
        [(''SSN'', code_points ''123-45-6789''), (''Billing Info'', [])])
     [(''SSN'', code_points ''123-45-6789''), (''Billing Info'', [])] =
   code_points ''SSN [REDACTED]''"
proof -
  let ?findings = "[(''SSN'', code_points ''123-45-6789''), (''Billing Info'', [])]"
  have r: "redact_text_ci ci_latin1 (code_points ''SSN 123-45-6789'') ?findings =
           code_points ''SSN [REDACTED]''"
    by code_simp
  have h: "\<not> occurs_ci ci_latin1 (code_points ''123-45-6789'') (code_points ''SSN [REDACTED]'')"
    by code_simp
  have "\<forall>(label, v) \<in> set ?findings.
          v \<noteq> [] \<longrightarrow>
          \<not> occurs_ci ci_latin1 v (redact_text_ci ci_latin1 (code_points ''SSN 123-45-6789'') ?findings)"
    unfolding r using h by simp
  from redact_text_idempotent [OF this] h show ?thesis unfolding r by simp
qed

text \<open>
  The hypothesis of C7 is needed: the marker contains the letters \<open>RED\<close>, so a finding
  with the literal \<open>red\<close> occurs again in the redacted text. So is the engine's own
  comparison in it: after the first pass on the text \<open>b\<close>, capital E acute (201), with the
  literals \<open>]\<close>, small e acute (233), and \<open>b\<close>, the first literal occurs in the result.
\<close>

lemma redact_text_marker_matches:
  "redact_text ''red'' [(''Colour'', ''red'')] = ''[REDACTED]'' \<and>
   redact_text ''[REDACTED]'' [(''Colour'', ''red'')] = ''[[REDACTED]ACTED]'' \<and>
   redact_text_ci ci_latin1 [98, 201] [(''x'', [93, 233]), (''y'', [98])] =
     code_points ''[REDACTED]'' @ [201] \<and>
   redact_text_ci ci_latin1 (code_points ''[REDACTED]'' @ [201]) [(''x'', [93, 233]), (''y'', [98])] =
     code_points ''[REDACTED[REDACTED]''"
  by code_simp

section \<open>Detection: the properties\<close>

lemma match_str_findall_item: "match_str (findall_item_of m) = Inr (recorded_text m)"
proof (cases "groups m")
  case Nil
  then show ?thesis by (simp add: findall_item_of_def recorded_text_def)
next
  case (Cons g gs)
  then show ?thesis by (cases gs) (simp_all add: findall_item_of_def recorded_text_def)
qed

lemma recorded_text_cases:
  "recorded_text m =
     (case groups m of
        [] \<Rightarrow> whole m
      | g # gs \<Rightarrow> (case g of None \<Rightarrow> [] | Some t \<Rightarrow> t))"
  by (simp add: recorded_text_def group_text_def split: list.splits option.splits)

lemma scan_found_findall:
  "scan_found label (map findall_item_of ms) matches =
     (matches @ map (\<lambda>m. (label, recorded_text m)) ms, None)"
  by (induction ms arbitrary: matches) (simp_all add: match_str_findall_item)

lemma scan_patterns_rule_findings:
  "scan_patterns items text matches = (matches @ rule_findings items text, None)"
  by (induction items arbitrary: matches)
     (auto simp: rule_findings_def findall_def scan_found_findall)

lemma scan_text_rule_findings:
  assumes "patterns self = Some items"
  shows "scan_text self text =
           rule_findings items text @
           (case nlp self of
              None \<Rightarrow> []
            | Some model \<Rightarrow> (case model text of None \<Rightarrow> [] | Some ents \<Rightarrow> person_findings ents))"
  using assms
  by (simp add: scan_text_def scan_patterns_rule_findings split: option.splits)

lemma scan_text_unset: "patterns self = None \<Longrightarrow> scan_text self text = []"
  by (simp add: scan_text_def)

lemma scan_and_redact_unset:
  "patterns self = None \<Longrightarrow> scan_and_redact_ticket self ticket = (Map.empty, ticket)"
  by (simp add: scan_and_redact_ticket_def scan_text_unset split: pyval.splits)

section \<open>Reconciliation: the properties\<close>

subsection \<open>Redaction keeps the other fields of a ticket\<close>

lemma redact_fields_other:
  "k \<notin> set fs \<Longrightarrow> snd (redact_fields det t fs (f, r)) k = r k"
  by (induction fs arbitrary: f r) (auto simp: Let_def split: pyval.splits)

lemma redact_fields_dom:
  "k \<in> dom r \<Longrightarrow> k \<in> dom (snd (redact_fields det t fs (f, r)))"
  by (induction fs arbitrary: f r) (auto simp: Let_def split: pyval.splits)

lemma redacted_other:
  "k \<noteq> ''description'' \<Longrightarrow> snd (scan_and_redact_ticket det t) k = t k"
  by (simp add: scan_and_redact_ticket_def redact_fields_other del: redact_fields.simps)

lemma redacted_dom: "k \<in> dom t \<Longrightarrow> k \<in> dom (snd (scan_and_redact_ticket det t))"
  by (simp add: scan_and_redact_ticket_def redact_fields_dom del: redact_fields.simps)

lemma redacted_description_present:
  "t ''description'' = Some d \<Longrightarrow> \<exists>d'. snd (scan_and_redact_ticket det t) ''description'' = Some d'"
  using redacted_dom [of "''description''" t det] by auto

lemma redacted_get:
  "k \<noteq> ''description'' \<Longrightarrow> dict_get (snd (scan_and_redact_ticket det t)) k dflt = dict_get t k dflt"
  by (simp add: dict_get_def redacted_other)

text \<open>Every ticket of the generator carries the fields the synchronisation reads.\<close>

lemma generate_fake_sysaid_ticket_keys:
  "{''id'', ''title'', ''description'', ''priority'', ''parent_id''}
     \<subseteq> dom (generate_fake_sysaid_ticket det ticket_id title description priority parent_id created_at)"
  by (simp add: generate_fake_sysaid_ticket_def redacted_dom)

subsection \<open>The branches of the synchronisation of one ticket\<close>

lemma find_existing_bug_sent: "snd (find_existing_bug env sid sent) = sent @ [Wiql sid]"
  by (simp add: find_existing_bug_def)

lemma sync_ticket_create_branch:
  assumes "fst (find_existing_bug env sid sent) = Inr b" "\<not> py_truthy b"
  shows "sync_ticket env det sid ticket sent =
     (case create_ado_bug env (snd (scan_and_redact_ticket det ticket)) (sent @ [Wiql sid]) of
        (Inl e, sent2) \<Rightarrow> (Inl e, sent2)
      | (Inr new_bug, sent2) \<Rightarrow>
          (case dict_item new_bug ''id'' of
             Inl e \<Rightarrow> (Inl e, sent2)
           | Inr new_id \<Rightarrow> (Inr (Created new_id), sent2)))"
proof -
  have "find_existing_bug env sid sent = (Inr b, sent @ [Wiql sid])"
    using assms(1) find_existing_bug_sent [of env sid sent]
    by (cases "find_existing_bug env sid sent") simp
  then show ?thesis using assms(2)
    by (simp add: sync_ticket_def split_beta)
qed

lemma sync_ticket_found_branch:
  assumes "fst (find_existing_bug env sid sent) = Inr b" "py_truthy b"
  shows "sync_ticket env det sid ticket sent =
     (let ticket' = snd (scan_and_redact_ticket det ticket);
          sent2 = sent @ [Wiql sid, GetWorkItem b]
      in case py_gt (dict_get ticket' ''update_time'' (PInt 0))
                    (fst (get_work_item_last_updated env b (sent @ [Wiql sid]))) of
           Inl e \<Rightarrow> (Inl e, sent2)
         | Inr newer \<Rightarrow>
             if newer then
               (case update_ado_bug env b ticket' sent2 of
                  (Inl e, sent3) \<Rightarrow> (Inl e, sent3)
                | (Inr body, sent3) \<Rightarrow> (Inr (Updated b), sent3))
             else (Inr Skipped, sent2))"
proof -
  have f: "find_existing_bug env sid sent = (Inr b, sent @ [Wiql sid])"
    using assms(1) find_existing_bug_sent [of env sid sent]
    by (cases "find_existing_bug env sid sent") simp
  show ?thesis using assms(2)
    by (simp add: sync_ticket_def f get_work_item_last_updated_def split_beta Let_def
          split: sum.splits)
qed

lemma create_fields_present:
  assumes "t ''title'' = Some title" "t ''description'' = Some description"
          "t ''id'' = Some ident" "t ''priority'' = Some priority"
  shows "create_fields t =
     Inr [field_op ''/fields/System.Title'' title,
          field_op ''/fields/System.Description'' description,
          field_op ''/fields/Custom.SysAidID'' (PStr (py_str ident)),
          field_op ''/fields/Microsoft.VSTS.Common.Priority'' (PInt (map_priority priority))]"
  using assms by (simp add: create_fields_def dict_item_def)

lemma update_fields_present:
  assumes "t ''title'' = Some title" "t ''description'' = Some description"
          "t ''priority'' = Some priority"
  shows "update_fields t =
     Inr [field_op ''/fields/System.Title'' title,
          field_op ''/fields/System.Description'' description,
          field_op ''/fields/Microsoft.VSTS.Common.Priority'' (PInt (map_priority priority))]"
  using assms by (simp add: update_fields_def dict_item_def)

lemma sync_ticket_creates:
  assumes nf: "fst (find_existing_bug env sid sent) = Inr b" "\<not> py_truthy b"
      and keys: "ticket ''title'' = Some title" "ticket ''description'' = Some d"
                "ticket ''id'' = Some ident" "ticket ''priority'' = Some priority"
  shows "\<exists>description bug_data.
           snd (scan_and_redact_ticket det ticket) ''description'' = Some description \<and>
           bug_data =
             [field_op ''/fields/System.Title'' title,
              field_op ''/fields/System.Description'' description,
              field_op ''/fields/Custom.SysAidID'' (PStr (py_str ident)),
              field_op ''/fields/Microsoft.VSTS.Common.Priority'' (PInt (map_priority priority))]
             @ (if py_truthy (dict_get ticket ''parent_id'' PNone)
                then [parent_link_op (dict_get ticket ''parent_id'' PNone)] else []) \<and>
           sync_ticket env det sid ticket sent =
             ((case post_reply env (sent @ [Wiql sid]) bug_data of
                 Raises e \<Rightarrow> Inl e
               | Returns new_bug \<Rightarrow>
                   (case new_bug ''id'' of
                      None \<Rightarrow> Inl (KeyError ''id'')
                    | Some new_id \<Rightarrow> Inr (Created new_id))),
              sent @ [Wiql sid, PostBug bug_data])"
proof -
  let ?t = "snd (scan_and_redact_ticket det ticket)"
  obtain description where d: "?t ''description'' = Some description"
    using redacted_description_present [of ticket d det] keys(2) by blast
  have cf: "create_fields ?t =
     Inr [field_op ''/fields/System.Title'' title,
          field_op ''/fields/System.Description'' description,
          field_op ''/fields/Custom.SysAidID'' (PStr (py_str ident)),
          field_op ''/fields/Microsoft.VSTS.Common.Priority'' (PInt (map_priority priority))]"
    by (rule create_fields_present) (simp_all add: redacted_other keys d)
  have p: "dict_get ?t ''parent_id'' PNone = dict_get ticket ''parent_id'' PNone"
    by (simp add: redacted_get)
  show ?thesis
    using d
    by (simp add: sync_ticket_create_branch [OF nf] create_ado_bug_def cf p Let_def dict_item_def
             split: reply.splits option.splits)
qed

lemma already_linked_sent: "snd (already_linked env b p sent) = sent @ [GetRelations b]"
  by (simp add: already_linked_def)

lemma already_linked_failure:
  "relations_reply env sent b = None \<Longrightarrow> fst (already_linked env b p sent) = False"
  by (simp add: already_linked_def)

lemma patch_result_with_id:
  assumes "dict_item t ''id'' = Inr ident"
  shows "(case r of
            Raises e \<Rightarrow>
              (if e = RequestException then
                 (case dict_item t ''id'' of Inl k \<Rightarrow> Inl k | Inr ident \<Rightarrow> Inl e)
               else Inl e)
          | Returns decoded \<Rightarrow>
              (case dict_item t ''id'' of
                 Inl k \<Rightarrow> Inl k
               | Inr ident \<Rightarrow> (case decoded of Inl e \<Rightarrow> Inl e | Inr body \<Rightarrow> Inr body))) =
         (case r of
            Raises e \<Rightarrow> Inl e
          | Returns decoded \<Rightarrow> (case decoded of Inl e \<Rightarrow> Inl e | Inr body \<Rightarrow> Inr body))"
  using assms by (cases r) simp_all

lemma sync_ticket_updates:
  assumes found: "fst (find_existing_bug env sid sent) = Inr b" "py_truthy b"
      and time: "dict_get ticket ''update_time'' (PInt 0) = PInt u"
      and newer: "real_of_int u > fst (get_work_item_last_updated env b (sent @ [Wiql sid]))"
      and keys: "ticket ''title'' = Some title" "ticket ''description'' = Some d"
                "ticket ''priority'' = Some priority" "ticket ''id'' = Some ident"
      and parent: "parent_id = dict_get ticket ''parent_id'' PNone"
      and sent2: "sent2 = sent @ [Wiql sid, GetWorkItem b]"
  shows "\<exists>description bug_data sent3.
           snd (scan_and_redact_ticket det ticket) ''description'' = Some description \<and>
           sent3 = sent2 @ (if py_truthy parent_id then [GetRelations b] else []) \<and>
           bug_data =
             [field_op ''/fields/System.Title'' title,
              field_op ''/fields/System.Description'' description,
              field_op ''/fields/Microsoft.VSTS.Common.Priority'' (PInt (map_priority priority))]
             @ (if py_truthy parent_id \<and> \<not> fst (already_linked env b parent_id sent2)
                then [parent_link_op parent_id] else []) \<and>
           sync_ticket env det sid ticket sent =
             ((case patch_reply env sent3 b bug_data of
                 Raises e \<Rightarrow> Inl e
               | Returns decoded \<Rightarrow>
                   (case decoded of
                      Inl e \<Rightarrow> Inl e
                    | Inr body \<Rightarrow> Inr (Updated b))),
              sent3 @ [PatchBug b bug_data])"
proof -
  let ?t = "snd (scan_and_redact_ticket det ticket)"
  obtain description where d: "?t ''description'' = Some description"
    using redacted_description_present [of ticket d det] keys(2) by blast
  have uf: "update_fields ?t =
     Inr [field_op ''/fields/System.Title'' title,
          field_op ''/fields/System.Description'' description,
          field_op ''/fields/Microsoft.VSTS.Common.Priority'' (PInt (map_priority priority))]"
    by (rule update_fields_present) (simp_all add: redacted_other keys d)
  have p: "dict_get ?t ''parent_id'' PNone = parent_id"
    by (simp add: redacted_get parent)
  have t: "dict_get ?t ''update_time'' (PInt 0) = PInt u"
    by (simp add: redacted_get time)
  have i: "dict_item ?t ''id'' = Inr ident"
    by (simp add: dict_item_def redacted_other keys)
  let ?sent3 = "sent2 @ (if py_truthy parent_id then [GetRelations b] else [])"
  let ?bug_data = "[field_op ''/fields/System.Title'' title,
              field_op ''/fields/System.Description'' description,
              field_op ''/fields/Microsoft.VSTS.Common.Priority'' (PInt (map_priority priority))]
             @ (if py_truthy parent_id \<and> \<not> fst (already_linked env b parent_id sent2)
                then [parent_link_op parent_id] else [])"
  have upd: "update_ado_bug env b ?t sent2 =
      ((case patch_reply env ?sent3 b ?bug_data of
          Raises e \<Rightarrow> Inl e
        | Returns decoded \<Rightarrow> (case decoded of Inl e \<Rightarrow> Inl e | Inr body \<Rightarrow> Inr body)),
       ?sent3 @ [PatchBug b ?bug_data])"
    by (simp add: update_ado_bug_def uf p Let_def split_beta already_linked_sent
          patch_result_with_id [OF i])
  have "sync_ticket env det sid ticket sent =
          (case update_ado_bug env b ?t sent2 of
             (Inl e, sent3) \<Rightarrow> (Inl e, sent3)
           | (Inr body, sent3) \<Rightarrow> (Inr (Updated b), sent3))"
    using newer by (simp add: sync_ticket_found_branch [OF found] t Let_def sent2)
  also have "\<dots> = ((case patch_reply env ?sent3 b ?bug_data of
                        Raises e \<Rightarrow> Inl e
                      | Returns decoded \<Rightarrow>
                          (case decoded of
                             Inl e \<Rightarrow> Inl e
                           | Inr body \<Rightarrow> Inr (Updated b))),
                     ?sent3 @ [PatchBug b ?bug_data])"
  proof (cases "patch_reply env ?sent3 b ?bug_data")
    case (Raises e)
    then show ?thesis unfolding upd by simp
  next
    case (Returns decoded)
    then show ?thesis unfolding upd by (cases decoded) simp_all
  qed
  finally show ?thesis using d by blast
qed

lemma sync_ticket_skips:
  assumes found: "fst (find_existing_bug env sid sent) = Inr b" "py_truthy b"
      and time: "dict_get ticket ''update_time'' (PInt 0) = PInt u"
      and older: "real_of_int u \<le> fst (get_work_item_last_updated env b (sent @ [Wiql sid]))"
  shows "sync_ticket env det sid ticket sent = (Inr Skipped, sent @ [Wiql sid, GetWorkItem b])"
proof -
  have t: "dict_get (snd (scan_and_redact_ticket det ticket)) ''update_time'' (PInt 0) = PInt u"
    by (simp add: redacted_get time)
  show ?thesis using older
    by (simp add: sync_ticket_found_branch [OF found] t Let_def)
qed

subsection \<open>The loop over the tickets\<close>

lemma run_loop_total:
  "\<forall>t\<in>set tickets. ''id'' \<in> dom t \<Longrightarrow>
   \<exists>c' sent'. run_loop env det tickets c sent = Inr (c', sent') \<and>
     created_count c' + updated_count c' + failed_count c'
       \<le> created_count c + updated_count c + failed_count c + length tickets"
proof (induction tickets arbitrary: c sent)
  case Nil
  then show ?case by simp
next
  case (Cons t ts)
  from Cons.prems obtain sid where sid: "t ''id'' = Some sid" by auto
  have rest: "\<forall>t\<in>set ts. ''id'' \<in> dom t" using Cons.prems by simp
  obtain r sent1 where s: "sync_ticket env det sid t sent = (r, sent1)"
    by (cases "sync_ticket env det sid t sent")
  show ?case
  proof (cases r)
    case (Inl e)
    from Cons.IH [OF rest, of "c\<lparr>failed_count := failed_count c + 1\<rparr>" sent1]
    show ?thesis using sid s Inl by (auto simp: dict_item_def)
  next
    case (Inr out)
    show ?thesis
    proof (cases out)
      case (Created n)
      from Cons.IH [OF rest, of "c\<lparr>created_count := created_count c + 1\<rparr>" sent1]
      show ?thesis using sid s Inr Created by (auto simp: dict_item_def)
    next
      case (Updated n)
      from Cons.IH [OF rest, of "c\<lparr>updated_count := updated_count c + 1\<rparr>" sent1]
      show ?thesis using sid s Inr Updated by (auto simp: dict_item_def)
    next
      case Skipped
      from Cons.IH [OF rest, of c sent1]
      show ?thesis using sid s Inr Skipped by (auto simp: dict_item_def)
    qed
  qed
qed

lemma run_loop_failure_step:
  assumes "t ''id'' = Some sid" "sync_ticket env det sid t sent = (Inl e, sent1)"
  shows "run_loop env det (t # ts) c sent =
         run_loop env det ts (c\<lparr>failed_count := failed_count c + 1\<rparr>) sent1"
  using assms by (simp add: dict_item_def)

lemma run_loop_all_failed:
  assumes "\<forall>t\<in>set tickets. ''id'' \<in> dom t"
      and "\<forall>t\<in>set tickets. \<forall>sid sent. t ''id'' = Some sid \<longrightarrow>
             (\<exists>e. fst (sync_ticket env det sid t sent) = Inl e)"
  shows "\<exists>sent'. run_loop env det tickets c sent =
           Inr (c\<lparr>failed_count := failed_count c + length tickets\<rparr>, sent')"
  using assms
proof (induction tickets arbitrary: c sent)
  case Nil
  then show ?case by simp
next
  case (Cons t ts)
  from Cons.prems obtain sid where sid: "t ''id'' = Some sid" by auto
  from Cons.prems(2) sid obtain e where "fst (sync_ticket env det sid t sent) = Inl e"
    by (meson list.set_intros(1))
  then obtain sent1 where s: "sync_ticket env det sid t sent = (Inl e, sent1)"
    by (cases "sync_ticket env det sid t sent") simp
  have "\<exists>sent'. run_loop env det ts (c\<lparr>failed_count := failed_count c + 1\<rparr>) sent1 =
      Inr (c\<lparr>failed_count := failed_count c + 1\<rparr>\<lparr>failed_count :=
             failed_count (c\<lparr>failed_count := failed_count c + 1\<rparr>) + length ts\<rparr>, sent')"
    using Cons.IH [of "c\<lparr>failed_count := failed_count c + 1\<rparr>" sent1] Cons.prems by simp
  then show ?case using run_loop_failure_step [OF sid s] by (simp add: add.assoc)
qed

subsection \<open>A ticket that is not found\<close>

text \<open>
  Claim C1, as amended. For every ticket that carries the fields \<open>id\<close>, \<open>title\<close>,
  \<open>description\<close> and \<open>priority\<close>, if the lookup by its identifier returns no work item,
  then after the lookup exactly one request is sent, the create request, and no update
  request. Its payload is built from the redacted ticket: the title, the description of
  the redacted ticket, the identifier as a string in the field \<open>Custom.SysAidID\<close>, the
  mapped priority, and a hierarchy-parent relation if and only if \<open>parent_id\<close> is present
  and true (not the empty string, not 0). The outcome is \<open>Created\<close> with the new identifier
  when the create request succeeds and its reply carries an \<open>id\<close>; when the request
  raises, the exception reaches the handler of the loop and the ticket counts as failed.
\<close>

theorem create_when_not_found:
  assumes "fst (find_existing_bug env sysaid_id sent) = Inr PNone"
      and "ticket ''id'' = Some sysaid_id"
      and "ticket ''title'' = Some title"
      and "ticket ''description'' = Some d"
      and "ticket ''priority'' = Some priority"
      and "parent_id = dict_get ticket ''parent_id'' PNone"
  shows "\<exists>description bug_data.
           snd (scan_and_redact_ticket det ticket) ''description'' = Some description \<and>
           bug_data =
             [field_op ''/fields/System.Title'' title,
              field_op ''/fields/System.Description'' description,
              field_op ''/fields/Custom.SysAidID'' (PStr (py_str sysaid_id)),
              field_op ''/fields/Microsoft.VSTS.Common.Priority'' (PInt (map_priority priority))]
             @ (if py_truthy parent_id then [parent_link_op parent_id] else []) \<and>
           ((\<exists>x \<in> set bug_data. path x = ''/relations/-'') \<longleftrightarrow> py_truthy parent_id) \<and>
           snd (sync_ticket env det sysaid_id ticket sent) =
             sent @ [Wiql sysaid_id, PostBug bug_data] \<and>
           fst (sync_ticket env det sysaid_id ticket sent) =
             (case post_reply env (sent @ [Wiql sysaid_id]) bug_data of
                Raises e \<Rightarrow> Inl e
              | Returns new_bug \<Rightarrow>
                  (case new_bug ''id'' of
                     None \<Rightarrow> Inl (KeyError ''id'')
                   | Some new_id \<Rightarrow> Inr (Created new_id)))"
proof -
  have nt: "\<not> py_truthy PNone" by simp
  from sync_ticket_creates [OF assms(1) nt assms(3) assms(4) assms(2) assms(5), of det]
  obtain description bug_data where
    d: "snd (scan_and_redact_ticket det ticket) ''description'' = Some description" and
    b: "bug_data =
             [field_op ''/fields/System.Title'' title,
              field_op ''/fields/System.Description'' description,
              field_op ''/fields/Custom.SysAidID'' (PStr (py_str sysaid_id)),
              field_op ''/fields/Microsoft.VSTS.Common.Priority'' (PInt (map_priority priority))]
             @ (if py_truthy parent_id then [parent_link_op parent_id] else [])" and
    s: "sync_ticket env det sysaid_id ticket sent =
             ((case post_reply env (sent @ [Wiql sysaid_id]) bug_data of
                 Raises e \<Rightarrow> Inl e
               | Returns new_bug \<Rightarrow>
                   (case new_bug ''id'' of
                      None \<Rightarrow> Inl (KeyError ''id'')
                    | Some new_id \<Rightarrow> Inr (Created new_id))),
              sent @ [Wiql sysaid_id, PostBug bug_data])"
    unfolding assms(6) by blast
  have l: "(\<exists>x \<in> set bug_data. path x = ''/relations/-'') \<longleftrightarrow> py_truthy parent_id"
    unfolding b by (simp add: field_op_def parent_link_op_def)
  show ?thesis using d b l s by simp
qed

theorem create_when_not_found_witness:
  "fst (find_existing_bug empty_ado (PInt 42) []) = Inr PNone \<and>
   demo_ticket ''id'' = Some (PInt 42) \<and>
   dict_get demo_ticket ''parent_id'' PNone = PInt 7 \<and>
   sync_ticket empty_ado demo_detector (PInt 42) demo_ticket [] =
     (Inr (Created (PInt 501)),
      [Wiql (PInt 42),
       PostBug
         [field_op ''/fields/System.Title'' (PStr ''Mobile App - Login failure''),
          field_op ''/fields/System.Description''
            (PStr ''SSN [REDACTED], billing 400, [REDACTED]: A12.3''),
          field_op ''/fields/Custom.SysAidID'' (PStr ''42''),
          field_op ''/fields/Microsoft.VSTS.Common.Priority'' (PInt 1),
          parent_link_op (PInt 7)]])"
proof -
  have f: "fst (find_existing_bug empty_ado (PInt 42) []) = Inr PNone"
    by (simp add: find_existing_bug_def empty_ado_def)
  have i: "demo_ticket ''id'' = Some (PInt 42)"
    and t: "demo_ticket ''title'' = Some (PStr ''Mobile App - Login failure'')"
    and d: "demo_ticket ''description'' = Some (PStr demo_description)"
    and p: "demo_ticket ''priority'' = Some (PStr ''High'')"
    and q: "dict_get demo_ticket ''parent_id'' PNone = PInt 7"
    by (simp_all add: demo_ticket_def dict_get_def)
  have r: "snd (scan_and_redact_ticket demo_detector demo_ticket) ''description'' =
           Some (PStr ''SSN [REDACTED], billing 400, [REDACTED]: A12.3'')"
    by code_simp
  have m: "map_priority (PStr ''High'') = 1" and s: "str_int 42 = ''42''"
    by code_simp+
  have g: "post_reply empty_ado sent bug_data = Returns [''id'' \<mapsto> PInt 501]" for sent bug_data
    by (simp add: empty_ado_def)
  from create_when_not_found [OF f i t d p q [symmetric], of demo_detector]
  show ?thesis using f i q by (auto simp: r m s g prod_eq_iff)
qed

text \<open>
  C1 as stated promises the outcome \<open>Created\<close> for every ticket that is not found. When
  the create request raises, \<^verbatim>\<open>create_ado_bug\<close> raises again and the loop counts the ticket
  as failed: here the lookup returns no work item, the create request is sent, and the
  result is the exception.
\<close>

theorem create_failure_counterexample:
  "fst (find_existing_bug failing_create_ado (PInt 42) []) = Inr PNone \<and>
   fst (sync_ticket failing_create_ado demo_detector (PInt 42) demo_ticket []) = Inl RequestException \<and>
   main failing_create_ado demo_detector [demo_ticket] = Inr ''Summary: 0 created, 0 updated, 1 failed''"
  by code_simp

subsection \<open>A ticket that is found\<close>

text \<open>
  Claim C2. For every ticket that is found remotely (the lookup returns a true work item
  identifier) and whose \<open>update_time\<close> (0 when the ticket has none) is less than or equal
  to the last-modified time read for that work item, the synchronisation sends the
  lookup and the read of the work item and nothing else, so no create and no update
  request, and it ends in the branch that skips the ticket as unchanged. An update
  request is sent, and the outcome is \<open>Updated\<close>, only when \<open>update_time\<close> is strictly
  greater than the remote time.
\<close>

theorem skip_when_unchanged:
  assumes "fst (find_existing_bug env sysaid_id sent) = Inr bug_id"
      and "py_truthy bug_id"
      and "dict_get ticket ''update_time'' (PInt 0) = PInt update_time"
      and "ado_updated_ts = fst (get_work_item_last_updated env bug_id (sent @ [Wiql sysaid_id]))"
  shows "(real_of_int update_time \<le> ado_updated_ts \<longrightarrow>
            sync_ticket env det sysaid_id ticket sent =
              (Inr Skipped, sent @ [Wiql sysaid_id, GetWorkItem bug_id]) \<and>
            filter is_mutation (drop (length sent) (snd (sync_ticket env det sysaid_id ticket sent))) = []) \<and>
         ((\<exists>r \<in> set (drop (length sent) (snd (sync_ticket env det sysaid_id ticket sent))). is_mutation r)
            \<longrightarrow> real_of_int update_time > ado_updated_ts) \<and>
         ((\<exists>b. fst (sync_ticket env det sysaid_id ticket sent) = Inr (Updated b))
            \<longrightarrow> real_of_int update_time > ado_updated_ts)"
proof -
  have skip: "sync_ticket env det sysaid_id ticket sent =
                (Inr Skipped, sent @ [Wiql sysaid_id, GetWorkItem bug_id])"
    if "real_of_int update_time \<le> ado_updated_ts"
    using sync_ticket_skips [OF assms(1) assms(2) assms(3), of det] that assms(4) by simp
  have quiet: "filter is_mutation (drop (length sent) (snd (sync_ticket env det sysaid_id ticket sent))) = []"
    if "real_of_int update_time \<le> ado_updated_ts"
    using skip [OF that] by simp
  have "real_of_int update_time > ado_updated_ts"
    if "\<exists>r \<in> set (drop (length sent) (snd (sync_ticket env det sysaid_id ticket sent))). is_mutation r"
  proof (rule ccontr)
    assume "\<not> real_of_int update_time > ado_updated_ts"
    then have "real_of_int update_time \<le> ado_updated_ts" by simp
    from quiet [OF this] that show False by (simp add: filter_empty_conv)
  qed
  moreover have "real_of_int update_time > ado_updated_ts"
    if "\<exists>b. fst (sync_ticket env det sysaid_id ticket sent) = Inr (Updated b)"
  proof (rule ccontr)
    assume "\<not> real_of_int update_time > ado_updated_ts"
    then have "real_of_int update_time \<le> ado_updated_ts" by simp
    from skip [OF this] that show False by simp
  qed
  ultimately show ?thesis using skip quiet by blast
qed

theorem skip_when_unchanged_witness:
  "fst (find_existing_bug (holding_ado 1000) (PInt 42) []) = Inr (PInt 501) \<and>
   py_truthy (PInt 501) \<and>
   dict_get demo_ticket ''update_time'' (PInt 0) = PInt 1000 \<and>
   fst (get_work_item_last_updated (holding_ado 1000) (PInt 501) [Wiql (PInt 42)]) = 1000 \<and>
   sync_ticket (holding_ado 1000) demo_detector (PInt 42) demo_ticket [] =
     (Inr Skipped, [Wiql (PInt 42), GetWorkItem (PInt 501)])"
proof -
  have f: "fst (find_existing_bug (holding_ado 1000) (PInt 42) []) = Inr (PInt 501)"
    by (simp add: find_existing_bug_def holding_ado_def empty_ado_def dict_item_def)
  have t: "py_truthy (PInt 501)" by simp
  have u: "dict_get demo_ticket ''update_time'' (PInt 0) = PInt 1000"
    by (simp add: demo_ticket_def dict_get_def)
  have g: "fst (get_work_item_last_updated (holding_ado 1000) (PInt 501) ([] @ [Wiql (PInt 42)])) = 1000"
    by (simp add: get_work_item_last_updated_def holding_ado_def empty_ado_def)
  from skip_when_unchanged [OF f t u g [symmetric], of demo_detector]
  show ?thesis using f u g by simp
qed

text \<open>
  Claim C3. For every ticket that carries \<open>id\<close>, \<open>title\<close>, \<open>description\<close> and \<open>priority\<close>, is
  found remotely, and whose \<open>update_time\<close> is strictly greater than the remote
  last-modified time, exactly one update request is sent. Its payload holds the title,
  the redacted description and the mapped priority, and no operation on the field
  \<open>Custom.SysAidID\<close>. When \<open>parent_id\<close> is present and true, the relations of the work item
  are read before the update request, and the parent link is appended if and only if
  that check returns false; a check whose request fails returns false, so the link is
  appended. When the update request succeeds (it is answered and its body is decoded)
  the outcome is \<open>Updated\<close>; otherwise the exception of the request is the result.
\<close>

theorem update_when_newer:
  assumes "fst (find_existing_bug env sysaid_id sent) = Inr bug_id"
      and "py_truthy bug_id"
      and "dict_get ticket ''update_time'' (PInt 0) = PInt update_time"
      and "real_of_int update_time > fst (get_work_item_last_updated env bug_id (sent @ [Wiql sysaid_id]))"
      and "ticket ''title'' = Some title"
      and "ticket ''description'' = Some d"
      and "ticket ''priority'' = Some priority"
      and "ticket ''id'' = Some sysaid_id"
      and "parent_id = dict_get ticket ''parent_id'' PNone"
      and "sent2 = sent @ [Wiql sysaid_id, GetWorkItem bug_id]"
  shows "\<exists>description bug_data sent3.
           snd (scan_and_redact_ticket det ticket) ''description'' = Some description \<and>
           sent3 = sent2 @ (if py_truthy parent_id then [GetRelations bug_id] else []) \<and>
           bug_data =
             [field_op ''/fields/System.Title'' title,
              field_op ''/fields/System.Description'' description,
              field_op ''/fields/Microsoft.VSTS.Common.Priority'' (PInt (map_priority priority))]
             @ (if py_truthy parent_id \<and> \<not> fst (already_linked env bug_id parent_id sent2)
                then [parent_link_op parent_id] else []) \<and>
           (\<forall>x \<in> set bug_data. path x \<noteq> ''/fields/Custom.SysAidID'') \<and>
           (relations_reply env sent2 bug_id = None \<longrightarrow>
              \<not> fst (already_linked env bug_id parent_id sent2)) \<and>
           snd (sync_ticket env det sysaid_id ticket sent) = sent3 @ [PatchBug bug_id bug_data] \<and>
           fst (sync_ticket env det sysaid_id ticket sent) =
             (case patch_reply env sent3 bug_id bug_data of
                Raises e \<Rightarrow> Inl e
              | Returns decoded \<Rightarrow>
                  (case decoded of
                     Inl e \<Rightarrow> Inl e
                   | Inr body \<Rightarrow> Inr (Updated bug_id)))"
proof -
  from sync_ticket_updates [OF assms(1-10), of det]
  obtain description bug_data sent3 where
    d: "snd (scan_and_redact_ticket det ticket) ''description'' = Some description" and
    s3: "sent3 = sent2 @ (if py_truthy parent_id then [GetRelations bug_id] else [])" and
    b: "bug_data =
             [field_op ''/fields/System.Title'' title,
              field_op ''/fields/System.Description'' description,
              field_op ''/fields/Microsoft.VSTS.Common.Priority'' (PInt (map_priority priority))]
             @ (if py_truthy parent_id \<and> \<not> fst (already_linked env bug_id parent_id sent2)
                then [parent_link_op parent_id] else [])" and
    s: "sync_ticket env det sysaid_id ticket sent =
             ((case patch_reply env sent3 bug_id bug_data of
                 Raises e \<Rightarrow> Inl e
               | Returns decoded \<Rightarrow>
                   (case decoded of
                      Inl e \<Rightarrow> Inl e
                    | Inr body \<Rightarrow> Inr (Updated bug_id))),
              sent3 @ [PatchBug bug_id bug_data])"
    by blast
  have n: "\<forall>x \<in> set bug_data. path x \<noteq> ''/fields/Custom.SysAidID''"
    unfolding b by (simp add: field_op_def parent_link_op_def)
  have l: "relations_reply env sent2 bug_id = None \<longrightarrow>
             \<not> fst (already_linked env bug_id parent_id sent2)"
    by (simp add: already_linked_failure)
  show ?thesis using d s3 b n l s by simp
qed

theorem update_when_newer_witness:
  "fst (find_existing_bug (holding_ado (1999 / 2)) (PInt 42) []) = Inr (PInt 501) \<and>
   demo_ticket ''id'' = Some (PInt 42) \<and>
   fst (get_work_item_last_updated (holding_ado (1999 / 2)) (PInt 501) [Wiql (PInt 42)]) < 1000 \<and>
   fst (already_linked (holding_ado (1999 / 2)) (PInt 501) (PInt 7)
          [Wiql (PInt 42), GetWorkItem (PInt 501)]) \<and>
   sync_ticket (holding_ado (1999 / 2)) demo_detector (PInt 42) demo_ticket [] =
     (Inr (Updated (PInt 501)),
      [Wiql (PInt 42), GetWorkItem (PInt 501), GetRelations (PInt 501),
       PatchBug (PInt 501)
         [field_op ''/fields/System.Title'' (PStr ''Mobile App - Login failure''),
          field_op ''/fields/System.Description''
            (PStr ''SSN [REDACTED], billing 400, [REDACTED]: A12.3''),
          field_op ''/fields/Microsoft.VSTS.Common.Priority'' (PInt 1)]])"
proof -
  let ?env = "holding_ado (1999 / 2)"
  have f: "fst (find_existing_bug ?env (PInt 42) []) = Inr (PInt 501)"
    by (simp add: find_existing_bug_def holding_ado_def empty_ado_def dict_item_def)
  have y: "py_truthy (PInt 501)" by simp
  have u: "dict_get demo_ticket ''update_time'' (PInt 0) = PInt 1000"
    and t: "demo_ticket ''title'' = Some (PStr ''Mobile App - Login failure'')"
    and d: "demo_ticket ''description'' = Some (PStr demo_description)"
    and p: "demo_ticket ''priority'' = Some (PStr ''High'')"
    and i: "demo_ticket ''id'' = Some (PInt 42)"
    and q: "dict_get demo_ticket ''parent_id'' PNone = PInt 7"
    by (simp_all add: demo_ticket_def dict_get_def)
  have g: "fst (get_work_item_last_updated ?env (PInt 501) ([] @ [Wiql (PInt 42)])) = 1999 / 2"
    by (simp add: get_work_item_last_updated_def holding_ado_def empty_ado_def)
  then have n: "real_of_int 1000 > fst (get_work_item_last_updated ?env (PInt 501) ([] @ [Wiql (PInt 42)]))"
    by simp
  have r: "snd (scan_and_redact_ticket demo_detector demo_ticket) ''description'' =
           Some (PStr ''SSN [REDACTED], billing 400, [REDACTED]: A12.3'')"
    by code_simp
  have m: "map_priority (PStr ''High'') = 1"
    by code_simp
  have a: "fst (already_linked ?env (PInt 501) (PInt 7) [Wiql (PInt 42), GetWorkItem (PInt 501)])"
    by code_simp
  have c: "patch_reply ?env sent bug_id bug_data = Returns (Inr [''id'' \<mapsto> bug_id])"
    for sent bug_id bug_data
    by (simp add: holding_ado_def empty_ado_def)
  from update_when_newer [OF f y u n t d p i q [symmetric] refl, of demo_detector]
  show ?thesis using f g a i by (simp add: r m c prod_eq_iff)
qed

text \<open>
  Claim C4. When the request of \<^verbatim>\<open>find_existing_bug\<close> raises a request error, the function
  returns \<^verbatim>\<open>None\<close>, and the ticket is synchronised exactly as if the lookup had answered
  with no work item: the create branch is taken. For a ticket that carries \<open>title\<close>,
  \<open>description\<close>, \<open>id\<close> and \<open>priority\<close> the create request is sent, and the ticket is
  neither dropped nor failed because of the lookup.
\<close>

theorem lookup_failure_creates:
  assumes "wiql_reply env sent sysaid_id = Raises RequestException"
  shows "find_existing_bug env sysaid_id sent = (Inr PNone, sent @ [Wiql sysaid_id]) \<and>
         sync_ticket env det sysaid_id ticket sent =
           sync_ticket (env\<lparr>wiql_reply := \<lambda>sent sysaid_id. Returns (Some [])\<rparr>)
             det sysaid_id ticket sent \<and>
         (ticket ''title'' \<noteq> None \<and> ticket ''description'' \<noteq> None \<and>
          ticket ''id'' \<noteq> None \<and> ticket ''priority'' \<noteq> None \<longrightarrow>
            (\<exists>bug_data.
               snd (sync_ticket env det sysaid_id ticket sent) =
                 sent @ [Wiql sysaid_id, PostBug bug_data] \<and>
               fst (sync_ticket env det sysaid_id ticket sent) =
                 (case post_reply env (sent @ [Wiql sysaid_id]) bug_data of
                    Raises e \<Rightarrow> Inl e
                  | Returns new_bug \<Rightarrow>
                      (case new_bug ''id'' of
                         None \<Rightarrow> Inl (KeyError ''id'')
                       | Some new_id \<Rightarrow> Inr (Created new_id)))))"
proof -
  let ?env' = "env\<lparr>wiql_reply := \<lambda>sent sysaid_id. Returns (Some [])\<rparr>"
  have f: "find_existing_bug env sysaid_id sent = (Inr PNone, sent @ [Wiql sysaid_id])"
    using assms by (simp add: find_existing_bug_def)
  have f1: "fst (find_existing_bug env sysaid_id sent) = Inr PNone" using f by simp
  have f2: "fst (find_existing_bug ?env' sysaid_id sent) = Inr PNone"
    by (simp add: find_existing_bug_def)
  have nt: "\<not> py_truthy PNone" by simp
  have c: "create_ado_bug ?env' t s = create_ado_bug env t s" for t s
    by (cases "create_fields t") (simp_all add: create_ado_bug_def)
  have same: "sync_ticket env det sysaid_id ticket sent = sync_ticket ?env' det sysaid_id ticket sent"
    unfolding sync_ticket_create_branch [OF f1 nt] sync_ticket_create_branch [OF f2 nt] c ..
  have "\<exists>bug_data.
               snd (sync_ticket env det sysaid_id ticket sent) =
                 sent @ [Wiql sysaid_id, PostBug bug_data] \<and>
               fst (sync_ticket env det sysaid_id ticket sent) =
                 (case post_reply env (sent @ [Wiql sysaid_id]) bug_data of
                    Raises e \<Rightarrow> Inl e
                  | Returns new_bug \<Rightarrow>
                      (case new_bug ''id'' of
                         None \<Rightarrow> Inl (KeyError ''id'')
                       | Some new_id \<Rightarrow> Inr (Created new_id)))"
    if "ticket ''title'' \<noteq> None \<and> ticket ''description'' \<noteq> None \<and>
        ticket ''id'' \<noteq> None \<and> ticket ''priority'' \<noteq> None"
  proof -
    from that obtain title d ident priority where
      k: "ticket ''title'' = Some title" "ticket ''description'' = Some d"
         "ticket ''id'' = Some ident" "ticket ''priority'' = Some priority"
      by auto
    from sync_ticket_creates [OF f1 nt k, of det] show ?thesis by auto
  qed
  then show ?thesis using f same by blast
qed

theorem lookup_failure_creates_witness:
  "wiql_reply failing_lookup_ado [] (PInt 42) = Raises RequestException \<and>
   find_existing_bug failing_lookup_ado (PInt 42) [] = (Inr PNone, [Wiql (PInt 42)]) \<and>
   sync_ticket failing_lookup_ado demo_detector (PInt 42) demo_ticket [] =
     sync_ticket empty_ado demo_detector (PInt 42) demo_ticket []"
proof -
  have w: "wiql_reply failing_lookup_ado [] (PInt 42) = Raises RequestException"
    by (simp add: failing_lookup_ado_def)
  have e: "failing_lookup_ado\<lparr>wiql_reply := \<lambda>sent sysaid_id. Returns (Some [])\<rparr> = empty_ado"
    by (simp add: failing_lookup_ado_def empty_ado_def)
  from lookup_failure_creates [OF w, of demo_detector demo_ticket]
  show ?thesis using w unfolding e by simp
qed

subsection \<open>The run\<close>

text \<open>
  Claim C8. For every batch of tickets that carry an \<open>id\<close> (every ticket of
  \<^verbatim>\<open>fetch_sysaid_tickets\<close> does, see \<open>generate_fake_sysaid_ticket_keys\<close>), no exception leaves
  the loop: \<open>main\<close> returns the summary line, whose three counts add up to at most the
  number of tickets. A ticket whose synchronisation raises only adds one to the count of
  failures, and the loop goes on with the next ticket; when every ticket fails, the
  summary is still produced, with all tickets counted as failed.
\<close>

theorem run_loop_isolates_failures:
  assumes "\<forall>t \<in> set tickets. ''id'' \<in> dom t"
  shows "(\<exists>c. main env det tickets = Inr (summary c) \<and>
              created_count c + updated_count c + failed_count c \<le> length tickets) \<and>
         (\<forall>t ts sid e c sent sent1.
            t ''id'' = Some sid \<longrightarrow> sync_ticket env det sid t sent = (Inl e, sent1) \<longrightarrow>
              run_loop env det (t # ts) c sent =
                run_loop env det ts (c\<lparr>failed_count := failed_count c + 1\<rparr>) sent1) \<and>
         ((\<forall>t \<in> set tickets. \<forall>sid sent. t ''id'' = Some sid \<longrightarrow>
              (\<exists>e. fst (sync_ticket env det sid t sent) = Inl e)) \<longrightarrow>
            main env det tickets =
              Inr (summary \<lparr>created_count = 0, updated_count = 0, failed_count = length tickets\<rparr>))"
proof -
  let ?c0 = "\<lparr>created_count = 0, updated_count = 0, failed_count = 0\<rparr>"
  from run_loop_total [OF assms, of env det ?c0 "[]"]
  have a: "\<exists>c. main env det tickets = Inr (summary c) \<and>
              created_count c + updated_count c + failed_count c \<le> length tickets"
    by (auto simp: main_def)
  have b: "main env det tickets =
              Inr (summary \<lparr>created_count = 0, updated_count = 0, failed_count = length tickets\<rparr>)"
    if "\<forall>t \<in> set tickets. \<forall>sid sent. t ''id'' = Some sid \<longrightarrow>
              (\<exists>e. fst (sync_ticket env det sid t sent) = Inl e)"
    using run_loop_all_failed [OF assms that, of ?c0 "[]"] by (auto simp: main_def)
  show ?thesis using a b run_loop_failure_step by blast
qed

theorem run_loop_isolates_failures_witness:
  "''id'' \<in> dom demo_ticket \<and>
   fst (sync_ticket failing_create_ado demo_detector (PInt 42) demo_ticket []) = Inl RequestException \<and>
   main failing_create_ado demo_detector [demo_ticket, demo_ticket] =
     Inr ''Summary: 0 created, 0 updated, 2 failed''"
proof -
  have i: "demo_ticket ''id'' = Some (PInt 42)"
    and t: "demo_ticket ''title'' = Some (PStr ''Mobile App - Login failure'')"
    and d: "demo_ticket ''description'' = Some (PStr demo_description)"
    and p: "demo_ticket ''priority'' = Some (PStr ''High'')"
    by (simp_all add: demo_ticket_def)
  have k: "\<forall>t \<in> set [demo_ticket, demo_ticket]. ''id'' \<in> dom t"
    using i by auto
  have f: "fst (find_existing_bug failing_create_ado (PInt 42) sent) = Inr PNone" for sent
    by (simp add: find_existing_bug_def failing_create_ado_def empty_ado_def)
  have nt: "\<not> py_truthy PNone" by simp
  have r: "post_reply failing_create_ado sent bug_data = Raises RequestException" for sent bug_data
    by (simp add: failing_create_ado_def empty_ado_def)
  have x: "fst (sync_ticket failing_create_ado demo_detector (PInt 42) demo_ticket sent) =
             Inl RequestException" for sent
  proof -
    from sync_ticket_creates [OF f [of sent] nt t d i p, of demo_detector]
    obtain bug_data where
      "sync_ticket failing_create_ado demo_detector (PInt 42) demo_ticket sent =
         ((case post_reply failing_create_ado (sent @ [Wiql (PInt 42)]) bug_data of
             Raises e \<Rightarrow> Inl e
           | Returns new_bug \<Rightarrow>
               (case new_bug ''id'' of
                  None \<Rightarrow> Inl (KeyError ''id'')
                | Some new_id \<Rightarrow> Inr (Created new_id))),
          sent @ [Wiql (PInt 42), PostBug bug_data])"
      by blast
    then show ?thesis by (simp add: r)
  qed
  have all: "\<forall>t \<in> set [demo_ticket, demo_ticket]. \<forall>sid sent. t ''id'' = Some sid \<longrightarrow>
               (\<exists>e. fst (sync_ticket failing_create_ado demo_detector sid t sent) = Inl e)"
    using i x by auto
  have s: "summary \<lparr>created_count = 0, updated_count = 0,
                    failed_count = length [demo_ticket, demo_ticket]\<rparr> =
           ''Summary: 0 created, 0 updated, 2 failed''"
    by code_simp
  from run_loop_isolates_failures [OF k, of failing_create_ado demo_detector] all
  have "main failing_create_ado demo_detector [demo_ticket, demo_ticket] =
          Inr ''Summary: 0 created, 0 updated, 2 failed''"
    unfolding s by blast
  then show ?thesis using i x [of "[]"] by auto
qed

section \<open>Detection: the claims\<close>

text \<open>
  Claim C9. For a detector whose rules are set, \<open>scan_text\<close> returns, for every rule in
  the order of the table and every match of the rule, the label with the text of the
  first capture group when the rule has capture groups, and with the whole matched text
  only when it has none; the person names of the language model follow. For a rule with
  several groups the text is element 0 of the tuple that \<^verbatim>\<open>findall\<close> returns; for a rule
  with one group \<^verbatim>\<open>findall\<close> returns that group's string itself. A first group that took
  no part in the match is recorded as the empty string. Redaction with such a finding
  leaves the text as it is, and redaction with a finding of a non-empty group text
  replaces the occurrences of that group text, not of the whole match.
\<close>

theorem scan_text_records_first_group:
  assumes "patterns self = Some items"
  shows "(\<exists>persons.
            scan_text self text =
              concat (map (\<lambda>(label, p).
                        map (\<lambda>m. (label,
                                case groups m of
                                  [] \<Rightarrow> whole m
                                | g # gs \<Rightarrow> (case g of None \<Rightarrow> [] | Some t \<Rightarrow> t)))
                            (p text))
                      items)
              @ persons \<and>
            (\<forall>f \<in> set persons. fst f = ''Full Name'')) \<and>
         (\<forall>m g. groups m = [g] \<longrightarrow>
            findall_item_of m = Str (group_text g) \<and>
            match_str (findall_item_of m) = Inr (group_text g)) \<and>
         (\<forall>m g g' gs. groups m = g # g' # gs \<longrightarrow>
            findall_item_of m = Tuple (group_text g # group_text g' # map group_text gs) \<and>
            match_str (findall_item_of m) = Inr (group_text g)) \<and>
         group_text None = [] \<and>
         redact_text s [(label, [])] = s \<and>
         (t \<noteq> [] \<longrightarrow> redact_text s [(label, t)] = re_sub_literal t REDACTED s)"
proof -
  let ?persons = "case nlp self of
                    None \<Rightarrow> []
                  | Some model \<Rightarrow>
                      (case model text of None \<Rightarrow> [] | Some ents \<Rightarrow> person_findings ents)"
  have r: "rule_findings items text =
             concat (map (\<lambda>(label, p).
                        map (\<lambda>m. (label,
                                case groups m of
                                  [] \<Rightarrow> whole m
                                | g # gs \<Rightarrow> (case g of None \<Rightarrow> [] | Some t \<Rightarrow> t)))
                            (p text))
                      items)"
    by (simp add: rule_findings_def recorded_text_cases)
  have p: "\<forall>f \<in> set ?persons. fst f = ''Full Name''"
    by (auto simp: person_findings_def split: option.splits)
  have "scan_text self text = rule_findings items text @ ?persons"
    by (rule scan_text_rule_findings [OF assms])
  then have a: "\<exists>persons.
            scan_text self text =
              concat (map (\<lambda>(label, p).
                        map (\<lambda>m. (label,
                                case groups m of
                                  [] \<Rightarrow> whole m
                                | g # gs \<Rightarrow> (case g of None \<Rightarrow> [] | Some t \<Rightarrow> t)))
                            (p text))
                      items)
              @ persons \<and>
            (\<forall>f \<in> set persons. fst f = ''Full Name'')"
    unfolding r using p by blast
  show ?thesis
    using a by (simp add: redact_text_single findall_item_of_def group_text_def)
qed

theorem scan_text_records_first_group_witness:
  "patterns demo_detector = Some demo_compiled \<and>
   scan_text demo_detector demo_description =
     [(''SSN'', ''123-45-6789''), (''Billing Info'', []), (''ICD Code'', ''ICD'')] \<and>
   redact_text demo_description [(''Billing Info'', [])] = demo_description \<and>
   redact_text demo_description [(''ICD Code'', ''ICD'')] =
     ''SSN 123-45-6789, billing 400, [REDACTED]: A12.3''"
proof -
  have q: "patterns demo_detector = Some demo_compiled"
    by (simp add: demo_detector_def init_def)
  have v: "scan_text demo_detector demo_description =
     [(''SSN'', ''123-45-6789''), (''Billing Info'', []), (''ICD Code'', ''ICD'')]"
    by code_simp
  have w: "re_sub_literal ''ICD'' REDACTED demo_description =
             ''SSN 123-45-6789, billing 400, [REDACTED]: A12.3''"
    by code_simp
  from scan_text_records_first_group [OF q, of demo_description demo_description
         "''Billing Info''" "''ICD''"]
  have "redact_text demo_description [(''Billing Info'', [])] = demo_description"
    by simp
  moreover
  from scan_text_records_first_group [OF q, of demo_description demo_description
         "''ICD Code''" "''ICD''"]
  have "redact_text demo_description [(''ICD Code'', ''ICD'')] =
          re_sub_literal ''ICD'' REDACTED demo_description"
    by simp
  ultimately show ?thesis using q v w by simp
qed

text \<open>
  Claim C10. When the initialisation of the detector fails (the language model cannot be
  loaded), the constructor swallows the exception and leaves the rules unset. From then
  on \<open>scan_text\<close> returns the empty list for every text, and \<open>scan_and_redact_ticket\<close>
  returns no findings and a ticket equal to its input: nothing is raised to the caller,
  and nothing is redacted.
\<close>

theorem failed_init_is_noop:
  "patterns (init None compiled) = None \<and>
   scan_text (init None compiled) text = [] \<and>
   scan_and_redact_ticket (init None compiled) ticket = (Map.empty, ticket)"
  by (simp add: init_def scan_text_unset scan_and_redact_unset)

theorem failed_init_is_noop_witness:
  "scan_text (init None demo_compiled) demo_description = [] \<and>
   snd (scan_and_redact_ticket (init None demo_compiled) demo_ticket) = demo_ticket"
  using failed_init_is_noop [of demo_compiled demo_description demo_ticket]
  by simp

end
